theory Spec2Isabelle
  imports Main
begin

section \<open>The tag integration: values, errors and collaborators\<close>

text \<open>
  The embedding follows \<^verbatim>\<open>homeassistant/components/tag/__init__.py\<close>. Python names that
  start with an underscore lose it (\<^verbatim>\<open>_update_data\<close> is \<open>update_data\<close>), since an Isabelle
  name cannot start with one.

  A Python value that can sit in a payload or in a stored record. The type \<open>'dt\<close> stands
  for Python's \<^verbatim>\<open>datetime\<close>; the code only passes datetimes around and calls
  \<^verbatim>\<open>isoformat\<close> on them.
\<close>

datatype 'dt pyval = VNone | VStr string | VInt int | VDatetime 'dt

text \<open>A Python \<^verbatim>\<open>dict\<close> with string keys.\<close>

type_synonym 'dt pydict = "string \<rightharpoonup> 'dt pyval"

text \<open>
  The exceptions the module can raise: \<^verbatim>\<open>vol.Invalid\<close> (the spec's ValidationError),
  \<^verbatim>\<open>KeyError\<close> of a subscript on a missing key, \<^verbatim>\<open>TagIDExistsError\<close> (the spec's
  IdConflict), \<^verbatim>\<open>HomeAssistantError\<close>, \<^verbatim>\<open>AttributeError\<close> of a method call on a value
  that has no such method, and the collection's NotFound.
\<close>

datatype 'dt error =
    Invalid
  | KeyError "'dt pyval"
  | TagIDExistsError "'dt pyval"
  | HomeAssistantError string
  | AttributeError
  | ItemNotFound "'dt pyval"

text \<open>Python truthiness, as used by \<^verbatim>\<open>not x\<close> and \<^verbatim>\<open>x or y\<close>.\<close>

fun py_bool :: "'dt pyval \<Rightarrow> bool" where
  "py_bool VNone = False"
| "py_bool (VStr s) = (s \<noteq> [])"
| "py_bool (VInt i) = (i \<noteq> 0)"
| "py_bool (VDatetime d) = True"

text \<open>
  What the module takes from outside \<^verbatim>\<open>src/\<close>, as parameters:
  \<^item> \<open>cv_string_other\<close>, \<open>cv_datetime_other\<close>: what \<^verbatim>\<open>cv.string\<close> and \<^verbatim>\<open>cv.datetime\<close> make of
    a value that is not already a string (a datetime); \<open>None\<close> is \<^verbatim>\<open>vol.Invalid\<close>;
  \<^item> \<open>isoformat\<close>: \<^verbatim>\<open>datetime.isoformat()\<close>; \<open>isoformat_ms\<close>:
    \<^verbatim>\<open>datetime.isoformat(timespec="milliseconds")\<close>;
  \<^item> \<open>parse_nonempty\<close>: \<^verbatim>\<open>dt_util.parse_datetime\<close> on anything but the empty string;
  \<^item> \<open>slugify\<close>: \<^verbatim>\<open>homeassistant.util.slugify\<close>;
  \<^item> \<open>uuid4\<close>: the token \<^verbatim>\<open>str(uuid.uuid4())\<close> draws; \<open>utcnow\<close>: the clock
    \<^verbatim>\<open>dt_util.utcnow()\<close> reads;
  \<^item> \<open>DEFAULT_NAME\<close>: the constant of \<^verbatim>\<open>const.py\<close>.
\<close>

record 'dt env =
  cv_string_other :: "'dt pyval \<Rightarrow> string option"
  cv_datetime_other :: "'dt pyval \<Rightarrow> 'dt option"
  isoformat :: "'dt \<Rightarrow> string"
  isoformat_ms :: "'dt \<Rightarrow> string"
  parse_nonempty :: "'dt pyval \<Rightarrow> 'dt option"
  slugify :: "'dt pyval \<Rightarrow> string"
  uuid4 :: string
  utcnow :: 'dt
  DEFAULT_NAME :: string

text \<open>
  Modelled from the spec: \<^verbatim>\<open>const.py\<close> and \<^verbatim>\<open>homeassistant/const.py\<close> are not under
  \<^verbatim>\<open>src/\<close>. The spec names the record's fields \<open>id\<close>, \<open>name\<close>, \<open>description\<close>,
  \<open>last_scanned\<close> and \<open>device_id\<close>, the domain \<open>tag\<close> and the event \<open>tag_scanned\<close>.
  \<open>LAST_SCANNED\<close> is defined in the source itself.
\<close>

definition TAG_ID :: string where "TAG_ID = ''id''"
definition CONF_NAME :: string where "CONF_NAME = ''name''"
definition DESCRIPTION :: string where "DESCRIPTION = ''description''"
definition LAST_SCANNED :: string where "LAST_SCANNED = ''last_scanned''"
definition DEVICE_ID :: string where "DEVICE_ID = ''device_id''"
definition DOMAIN :: string where "DOMAIN = ''tag''"
definition EVENT_TAG_SCANNED :: string where "EVENT_TAG_SCANNED = ''tag_scanned''"

text \<open>
  Modelled from the spec: \<^verbatim>\<open>cv.string\<close> and \<^verbatim>\<open>cv.datetime\<close>
  (\<^verbatim>\<open>helpers/config_validation.py\<close>) are not under \<^verbatim>\<open>src/\<close>. The spec has the string
  fields hold strings and has the validator take a datetime value and convert it to its
  string form: a string passes \<open>cv_string\<close> as it is, a datetime passes \<open>cv_datetime\<close> as it
  is. Every other value is left to the parameters.
\<close>

definition cv_string :: "'dt env \<Rightarrow> 'dt pyval \<Rightarrow> 'dt pyval option" where
  "cv_string E v = (case v of VStr s \<Rightarrow> Some (VStr s)
                    | _ \<Rightarrow> map_option VStr (cv_string_other E v))"

definition cv_datetime :: "'dt env \<Rightarrow> 'dt pyval \<Rightarrow> 'dt pyval option" where
  "cv_datetime E v = (case v of VDatetime d \<Rightarrow> Some (VDatetime d)
                      | _ \<Rightarrow> map_option VDatetime (cv_datetime_other E v))"

text \<open>
  Modelled from the spec: \<^verbatim>\<open>dt_util.parse_datetime\<close> (\<^verbatim>\<open>util/dt.py\<close>) is not under
  \<^verbatim>\<open>src/\<close>. The spec has an unset \<open>last_scanned\<close>, which the listener caches as the
  empty string, give no datetime.
\<close>

definition parse_datetime :: "'dt env \<Rightarrow> 'dt pyval \<Rightarrow> 'dt option" where
  "parse_datetime E v = (if v = VStr [] then None else parse_nonempty E v)"

text \<open>\<^verbatim>\<open>x.isoformat()\<close> on a value: only a datetime has the method.\<close>

definition py_isoformat :: "'dt env \<Rightarrow> 'dt pyval \<Rightarrow> 'dt error + 'dt pyval" where
  "py_isoformat E v = (case v of VDatetime d \<Rightarrow> Inr (VStr (isoformat E d))
                       | _ \<Rightarrow> Inl AttributeError)"

section \<open>Schemas\<close>

text \<open>
  \<^verbatim>\<open>vol.All(str, vol.Length(min=1))\<close>: the value is an instance of \<^verbatim>\<open>str\<close> and its
  length is not below 1.
\<close>

definition vol_All_str_Length :: "nat \<Rightarrow> 'dt pyval \<Rightarrow> 'dt pyval option" where
  "vol_All_str_Length m v = (case v of VStr s \<Rightarrow> if length s < m then None else Some (VStr s)
                             | _ \<Rightarrow> None)"

type_synonym 'dt fields = "(string \<times> ('dt pyval \<Rightarrow> 'dt pyval option)) list"

definition CREATE_FIELDS :: "'dt env \<Rightarrow> 'dt fields" where
  "CREATE_FIELDS E =
     [(TAG_ID, cv_string E),
      (CONF_NAME, vol_All_str_Length 1),
      (DESCRIPTION, cv_string E),
      (LAST_SCANNED, cv_datetime E),
      (DEVICE_ID, cv_string E)]"

definition UPDATE_FIELDS :: "'dt env \<Rightarrow> 'dt fields" where
  "UPDATE_FIELDS E =
     [(CONF_NAME, vol_All_str_Length 1),
      (DESCRIPTION, cv_string E),
      (LAST_SCANNED, cv_datetime E),
      (DEVICE_ID, cv_string E)]"

text \<open>
  \<^verbatim>\<open>vol.Schema(fields)(data)\<close> for a dict of \<^verbatim>\<open>vol.Optional\<close> keys with no default: a
  key of the data outside the schema is refused (extra keys not allowed), every value
  present goes through its key's validator, and the result holds the validated value of
  exactly the keys that were present.
\<close>

definition vol_Schema :: "'dt fields \<Rightarrow> 'dt pydict \<Rightarrow> 'dt error + 'dt pydict" where
  "vol_Schema schema data =
     (if \<not> dom data \<subseteq> set (map fst schema) then Inl Invalid
      else if \<not> list_all (\<lambda>(k, check). case data k of None \<Rightarrow> True
                                                 | Some v \<Rightarrow> check v \<noteq> None) schema
      then Inl Invalid
      else Inr (\<lambda>k. case data k of None \<Rightarrow> None
                    | Some v \<Rightarrow> (case map_of schema k of None \<Rightarrow> None
                                 | Some check \<Rightarrow> check v)))"

definition CREATE_SCHEMA :: "'dt env \<Rightarrow> 'dt pydict \<Rightarrow> 'dt error + 'dt pydict" where
  "CREATE_SCHEMA E = vol_Schema (CREATE_FIELDS E)"

definition UPDATE_SCHEMA :: "'dt env \<Rightarrow> 'dt pydict \<Rightarrow> 'dt error + 'dt pydict" where
  "UPDATE_SCHEMA E = vol_Schema (UPDATE_FIELDS E)"

section \<open>TagIDManager and TagStorageCollection\<close>

text \<open>The collection's map \<^verbatim>\<open>helper.data\<close>: item id to stored record.\<close>

type_synonym 'dt items = "'dt pyval \<rightharpoonup> 'dt pydict"

text \<open>
  Modelled from the spec: \<^verbatim>\<open>IDManager.has_id\<close> (\<^verbatim>\<open>helpers/collection.py\<close>) is not under
  \<^verbatim>\<open>src/\<close>; the spec has it an existence check against the live map.
\<close>

definition has_id :: "'dt items \<Rightarrow> 'dt pyval \<Rightarrow> bool" where
  "has_id items item_id = (item_id \<in> dom items)"

definition generate_id :: "'dt items \<Rightarrow> 'dt pyval \<Rightarrow> 'dt error + 'dt pyval" where
  "generate_id items suggestion =
     (if has_id items suggestion then Inl (TagIDExistsError suggestion)
      else Inr suggestion)"

definition process_create_data :: "'dt env \<Rightarrow> 'dt pydict \<Rightarrow> 'dt error + 'dt pydict" where
  "process_create_data E data0 =
     (case CREATE_SCHEMA E data0 of
        Inl e \<Rightarrow> Inl e
      | Inr data \<Rightarrow>
          (case data TAG_ID of
             None \<Rightarrow> Inl (KeyError (VStr TAG_ID))
           | Some tid \<Rightarrow>
               let data1 = (if \<not> py_bool tid then data(TAG_ID \<mapsto> VStr (uuid4 E)) else data)
               in (case data1 LAST_SCANNED of
                     None \<Rightarrow> Inr data1
                   | Some ls \<Rightarrow>
                       (case py_isoformat E ls of
                          Inl e \<Rightarrow> Inl e
                        | Inr s \<Rightarrow> Inr (data1(LAST_SCANNED \<mapsto> s))))))"

definition get_suggested_id :: "'dt pydict \<Rightarrow> 'dt error + 'dt pyval" where
  "get_suggested_id info = (case info TAG_ID of None \<Rightarrow> Inl (KeyError (VStr TAG_ID))
                            | Some v \<Rightarrow> Inr v)"

definition update_data :: "'dt env \<Rightarrow> 'dt pydict \<Rightarrow> 'dt pydict \<Rightarrow> 'dt error + 'dt pydict" where
  "update_data E item upd =
     (case UPDATE_SCHEMA E upd of
        Inl e \<Rightarrow> Inl e
      | Inr validated \<Rightarrow>
          let data = item ++ validated
          in if LAST_SCANNED \<in> dom upd
             then (case data LAST_SCANNED of
                     None \<Rightarrow> Inl (KeyError (VStr LAST_SCANNED))
                   | Some ls \<Rightarrow>
                       (case py_isoformat E ls of
                          Inl e \<Rightarrow> Inl e
                        | Inr s \<Rightarrow> Inr (data(LAST_SCANNED \<mapsto> s))))
             else Inr data)"

text \<open>
  Modelled from the spec: \<^verbatim>\<open>async_create_item\<close> and \<^verbatim>\<open>async_update_item\<close> of the
  collection engine (\<^verbatim>\<open>helpers/collection.py\<close>) are not under \<^verbatim>\<open>src/\<close>. By the spec,
  create runs the create validation, resolves the id through the id allocator, inserts
  the record under that id and returns it; update fails with NotFound on an absent id,
  runs the update validation and replaces the stored record. Both return the map after
  the call, which is the map before it when the call fails, and the record or the error;
  persistence and notification do not change the map and are left out.
\<close>

definition async_create_item ::
  "'dt env \<Rightarrow> 'dt items \<Rightarrow> 'dt pydict \<Rightarrow> 'dt items \<times> ('dt error + 'dt pydict)" where
  "async_create_item E items data =
     (case process_create_data E data of
        Inl e \<Rightarrow> (items, Inl e)
      | Inr validated \<Rightarrow>
          (case get_suggested_id validated of
             Inl e \<Rightarrow> (items, Inl e)
           | Inr suggestion \<Rightarrow>
               (case generate_id items suggestion of
                  Inl e \<Rightarrow> (items, Inl e)
                | Inr item_id \<Rightarrow>
                    let item = validated(TAG_ID \<mapsto> item_id)
                    in (items(item_id \<mapsto> item), Inr item))))"

definition async_update_item ::
  "'dt env \<Rightarrow> 'dt items \<Rightarrow> 'dt pyval \<Rightarrow> 'dt pydict \<Rightarrow> 'dt items \<times> ('dt error + 'dt pydict)" where
  "async_update_item E items item_id updates =
     (case items item_id of
        None \<Rightarrow> (items, Inl (ItemNotFound item_id))
      | Some current \<Rightarrow>
          (case update_data E current updates of
             Inl e \<Rightarrow> (items, Inl e)
           | Inr updated \<Rightarrow> (items(item_id \<mapsto> updated), Inr updated)))"

text \<open>A run of updates on one record, each on the result of the one before.\<close>

fun update_all :: "'dt env \<Rightarrow> 'dt pydict \<Rightarrow> 'dt pydict list \<Rightarrow> 'dt error + 'dt pydict" where
  "update_all E item [] = Inr item"
| "update_all E item (upd # upds) =
     (case update_data E item upd of Inl e \<Rightarrow> Inl e | Inr item' \<Rightarrow> update_all E item' upds)"

text \<open>A record's \<open>last_scanned\<close> is absent or a string.\<close>

definition last_scanned_str :: "'dt pydict \<Rightarrow> bool" where
  "last_scanned_str item = (case item LAST_SCANNED of None \<Rightarrow> True
                            | Some (VStr s) \<Rightarrow> True
                            | Some _ \<Rightarrow> False)"

section \<open>Scanning a tag\<close>

text \<open>\<^verbatim>\<open>d.get(k, default)\<close>; \<^verbatim>\<open>d.get(k)\<close> is \<open>dict_get d k VNone\<close>.\<close>

definition dict_get :: "'dt pydict \<Rightarrow> string \<Rightarrow> 'dt pyval \<Rightarrow> 'dt pyval" where
  "dict_get d k dflt = (case d k of None \<Rightarrow> dflt | Some v \<Rightarrow> v)"

text \<open>A parameter of type \<^verbatim>\<open>str | None\<close> as a value.\<close>

definition opt_str :: "string option \<Rightarrow> 'dt pyval" where
  "opt_str x = (case x of None \<Rightarrow> VNone | Some s \<Rightarrow> VStr s)"

text \<open>\<^verbatim>\<open>x or y\<close>.\<close>

definition py_or :: "'dt pyval \<Rightarrow> 'dt pyval \<Rightarrow> 'dt pyval" where
  "py_or x y = (if py_bool x then x else y)"

text \<open>
  What \<^verbatim>\<open>async_scan_tag\<close> reads of \<^verbatim>\<open>hass\<close>: the loaded components
  (\<^verbatim>\<open>hass.config.components\<close>) and the map of the tag collection
  (\<^verbatim>\<open>hass.data[DOMAIN][TAGS].data\<close>).
\<close>

record 'dt hass =
  components :: "string set"
  helper_data :: "'dt items"

text \<open>
  The calls \<^verbatim>\<open>async_scan_tag\<close> makes on its collaborators, in the order it makes them:
  firing an event on the bus, and the update or the create of the collection.
\<close>

datatype 'dt call =
    Async_fire string "'dt pydict"
  | Async_update_item "'dt pyval" "'dt pydict"
  | Async_create_item "'dt pydict"

definition async_scan_tag ::
  "'dt env \<Rightarrow> 'dt hass \<Rightarrow> string \<Rightarrow> string option \<Rightarrow> 'dt error + 'dt call list" where
  "async_scan_tag E h tag_id device_id =
     (if DOMAIN \<notin> components h
      then Inl (HomeAssistantError ''tag component has not been set up.'')
      else
        let tag_name =
              (case helper_data h (VStr tag_id) of
                 None \<Rightarrow> VNone
               | Some tag_data \<Rightarrow>
                   if tag_data = Map.empty then VNone else dict_get tag_data CONF_NAME VNone);
            fired = Async_fire EVENT_TAG_SCANNED
                      [TAG_ID \<mapsto> VStr tag_id, CONF_NAME \<mapsto> tag_name,
                       DEVICE_ID \<mapsto> opt_str device_id]
        in if VStr tag_id \<in> dom (helper_data h)
           then Inr [fired,
                     Async_update_item (VStr tag_id)
                       [LAST_SCANNED \<mapsto> VDatetime (utcnow E),
                        DEVICE_ID \<mapsto> py_or (opt_str device_id) (VStr [])]]
           else Inr [fired,
                     Async_create_item
                       [TAG_ID \<mapsto> VStr tag_id,
                        LAST_SCANNED \<mapsto> VDatetime (utcnow E),
                        DEVICE_ID \<mapsto> py_or (opt_str device_id) (VStr [])]])"

section \<open>Entities and the change listener\<close>

record 'dt TagEntity =
  entity_id :: string
  attr_name :: "'dt pyval"
  tag_id :: "'dt pyval"
  last_device_id :: "'dt pyval"
  last_scanned :: "'dt pyval"
  attr_unique_id :: "'dt pyval"

definition TagEntity_init ::
  "'dt env \<Rightarrow> 'dt pyval \<Rightarrow> 'dt pyval \<Rightarrow> 'dt pyval \<Rightarrow> 'dt pyval \<Rightarrow> 'dt TagEntity" where
  "TagEntity_init E name tid lscanned device_id =
     \<lparr> entity_id = ''tag.'' @ slugify E name,
       attr_name = name,
       tag_id = tid,
       last_device_id = device_id,
       last_scanned = lscanned,
       attr_unique_id = tid \<rparr>"

definition state :: "'dt env \<Rightarrow> 'dt TagEntity \<Rightarrow> string option" where
  "state E e = (case parse_datetime E (last_scanned e) of
                  None \<Rightarrow> None
                | Some d \<Rightarrow> Some (isoformat_ms E d))"

definition extra_state_attributes :: "'dt TagEntity \<Rightarrow> 'dt pydict" where
  "extra_state_attributes e = [TAG_ID \<mapsto> tag_id e, DEVICE_ID \<mapsto> last_device_id e]"

text \<open>
  What reaches the state sink, in order: a state written under an entity id, with its
  attributes; the removal of an entity; the removal of the state under an entity id.
\<close>

datatype 'dt effect =
    Write_state string "string option" "'dt pydict"
  | Entity_remove string
  | States_remove string

text \<open>
  Modelled from the spec: \<^verbatim>\<open>Entity.async_write_ha_state\<close> (\<^verbatim>\<open>helpers/entity.py\<close>) is
  not under \<^verbatim>\<open>src/\<close>; the spec has it publish the entity id, the state and the
  attributes.
\<close>

definition async_write_ha_state :: "'dt env \<Rightarrow> 'dt TagEntity \<Rightarrow> 'dt effect" where
  "async_write_ha_state E e = Write_state (entity_id e) (state E e) (extra_state_attributes e)"

text \<open>The entity after the call, and what it writes.\<close>

definition async_handle_event ::
  "'dt env \<Rightarrow> 'dt TagEntity \<Rightarrow> 'dt pyval \<Rightarrow> 'dt pyval \<Rightarrow> 'dt TagEntity \<times> 'dt effect list" where
  "async_handle_event E e device_id lscanned =
     (let e' = e\<lparr> last_device_id := device_id, last_scanned := lscanned \<rparr>
      in (e', [async_write_ha_state E e']))"

definition async_add_initial_state :: "'dt env \<Rightarrow> 'dt TagEntity \<Rightarrow> 'dt effect list" where
  "async_add_initial_state E e = [async_write_ha_state E e]"

text \<open>
  The state of the listener's closure: the dict \<^verbatim>\<open>entities\<close> and what has reached the
  state sink so far.
\<close>

record 'dt projector =
  entities :: "'dt pyval \<rightharpoonup> 'dt TagEntity"
  written :: "'dt effect list"

datatype change_type = CHANGE_ADDED | CHANGE_UPDATED | CHANGE_REMOVED

definition tag_change_listener ::
  "'dt env \<Rightarrow> 'dt projector \<Rightarrow> change_type \<Rightarrow> 'dt pyval \<Rightarrow> 'dt pydict
     \<Rightarrow> 'dt error + 'dt projector" where
  "tag_change_listener E p change item_id updated_config =
     (case change of
        CHANGE_ADDED \<Rightarrow>
          (case updated_config TAG_ID of
             None \<Rightarrow> Inl (KeyError (VStr TAG_ID))
           | Some tid \<Rightarrow>
               let e = TagEntity_init E
                         (dict_get updated_config CONF_NAME (VStr (DEFAULT_NAME E)))
                         tid
                         (dict_get updated_config LAST_SCANNED (VStr []))
                         (dict_get updated_config DEVICE_ID VNone)
               in Inr (p\<lparr> entities := (entities p)(tid \<mapsto> e),
                          written := written p @ async_add_initial_state E e \<rparr>))
      | CHANGE_UPDATED \<Rightarrow>
          (case updated_config TAG_ID of
             None \<Rightarrow> Inl (KeyError (VStr TAG_ID))
           | Some tid \<Rightarrow>
               (case entities p tid of
                  None \<Rightarrow> Inl (KeyError tid)
                | Some e \<Rightarrow>
                    if last_scanned e \<noteq> dict_get updated_config LAST_SCANNED (VStr [])
                    then let (e', ws) = async_handle_event E e
                                          (dict_get updated_config DEVICE_ID VNone)
                                          (dict_get updated_config LAST_SCANNED (VStr []))
                         in Inr (p\<lparr> entities := (entities p)(tid \<mapsto> e'),
                                    written := written p @ ws \<rparr>)
                    else Inr p))
      | CHANGE_REMOVED \<Rightarrow>
          (case updated_config TAG_ID of
             None \<Rightarrow> Inl (KeyError (VStr TAG_ID))
           | Some tid \<Rightarrow>
               (case entities p tid of
                  None \<Rightarrow> Inl (KeyError tid)
                | Some e \<Rightarrow>
                    Inr (p\<lparr> entities := (entities p)(tid := None),
                            written := written p @
                              [Entity_remove (entity_id e),
                               States_remove (entity_id e),
                               States_remove (entity_id e)] \<rparr>))))"

text \<open>Every record of the map has a \<open>last_scanned\<close> that is absent or a string.\<close>

definition stored_last_scanned_str :: "'dt items \<Rightarrow> bool" where
  "stored_last_scanned_str items = (\<forall>item \<in> ran items. last_scanned_str item)"

section \<open>A concrete environment\<close>

text \<open>Python's \<^verbatim>\<open>str\<close> of an integer: its decimal digits, with a minus sign when negative.\<close>

fun str_nat :: "nat \<Rightarrow> string" where
  "str_nat n = (if n < 10 then [''0123456789'' ! n]
                else str_nat (n div 10) @ [''0123456789'' ! (n mod 10)])"

declare str_nat.simps [simp del]

definition str_int :: "int \<Rightarrow> string" where
  "str_int i = (if i < 0 then CHR ''-'' # str_nat (nat (- i)) else str_nat (nat i))"

text \<open>
  An instance of the parameters, with the clock's ticks as datetimes, on which the
  definitions can be evaluated. Its \<open>cv_string_other\<close> does what \<^verbatim>\<open>cv.string\<close> does:
  \<^verbatim>\<open>None\<close> is refused and another value is coerced with \<^verbatim>\<open>str\<close>. Its
  \<open>cv_datetime_other\<close> takes a string that parses as a datetime.
\<close>

definition example_env :: "nat env" where
  "example_env =
     \<lparr> cv_string_other = (\<lambda>v. case v of
                               VNone \<Rightarrow> None
                             | VStr s \<Rightarrow> Some s
                             | VInt i \<Rightarrow> Some (str_int i)
                             | VDatetime d \<Rightarrow> Some (if d = 0 then ''1970-01-01 00:00:00+00:00''
                                                     else ''1970-01-01 00:00:01+00:00'')),
       cv_datetime_other = (\<lambda>v. if v = VStr ''1970-01-01T00:00:00+00:00'' then Some 0
                                  else if v = VStr ''1970-01-01T00:00:01+00:00'' then Some 1
                                  else None),
       isoformat = (\<lambda>d. if d = 0 then ''1970-01-01T00:00:00+00:00''
                          else ''1970-01-01T00:00:01+00:00''),
       isoformat_ms = (\<lambda>d. if d = 0 then ''1970-01-01T00:00:00.000+00:00''
                             else ''1970-01-01T00:00:01.000+00:00''),
       parse_nonempty = (\<lambda>v. if v = VStr ''1970-01-01T00:00:00+00:00'' then Some 0
                               else if v = VStr ''1970-01-01T00:00:01+00:00'' then Some 1
                               else None),
       slugify = (\<lambda>v. if v = VStr ''Tag'' then ''tag'' else ''unknown''),
       uuid4 = ''3f2b8a9c-5d1e-4c7a-9b0f-6e2d4a1c8b7e'',
       utcnow = 1,
       DEFAULT_NAME = ''Tag'' \<rparr>"

section \<open>Facts about the schemas\<close>

lemmas key_defs = TAG_ID_def CONF_NAME_def DESCRIPTION_def LAST_SCANNED_def DEVICE_ID_def

lemma vol_Schema_error: "vol_Schema sch d = Inl e \<Longrightarrow> e = Invalid"
  by (auto simp: vol_Schema_def split: if_splits)

lemma vol_Schema_absent: "vol_Schema sch d = Inr v \<Longrightarrow> d k = None \<Longrightarrow> v k = None"
  by (auto simp: vol_Schema_def split: if_splits)

lemma vol_Schema_present:
  assumes "vol_Schema sch d = Inr v" and "d k = Some x"
  shows "\<exists>check y. (k, check) \<in> set sch \<and> map_of sch k = Some check \<and> check x = Some y \<and> v k = Some y"
proof -
  from assms have sub: "dom d \<subseteq> set (map fst sch)"
    and all: "list_all (\<lambda>(k, check). case d k of None \<Rightarrow> True | Some v \<Rightarrow> check v \<noteq> None) sch"
    and v: "v = (\<lambda>k. case d k of None \<Rightarrow> None
                    | Some v \<Rightarrow> (case map_of sch k of None \<Rightarrow> None | Some check \<Rightarrow> check v))"
    by (auto simp: vol_Schema_def split: if_splits)
  from sub assms(2) have "k \<in> fst ` set sch" by auto
  then obtain check where m: "map_of sch k = Some check"
    by (metis map_of_eq_None_iff not_Some_eq)
  then have mem: "(k, check) \<in> set sch" by (rule map_of_SomeD)
  with all assms(2) have "check x \<noteq> None"
    by (auto simp: list_all_iff)
  then obtain y where "check x = Some y" by auto
  with m mem v assms(2) show ?thesis by auto
qed

lemma vol_Schema_dom: "vol_Schema sch d = Inr v \<Longrightarrow> dom v = dom d"
  using vol_Schema_absent vol_Schema_present by (fastforce simp: dom_def)

lemma vol_Schema_keys: "vol_Schema sch d = Inr v \<Longrightarrow> dom d \<subseteq> fst ` set sch"
  by (auto simp: vol_Schema_def split: if_splits)

lemma vol_Schema_reject:
  "(k, check) \<in> set sch \<Longrightarrow> d k = Some x \<Longrightarrow> check x = None \<Longrightarrow> vol_Schema sch d = Inl Invalid"
  by (auto simp: vol_Schema_def list_all_iff)

lemma vol_Schema_extra:
  "d k \<noteq> None \<Longrightarrow> k \<notin> fst ` set sch \<Longrightarrow> vol_Schema sch d = Inl Invalid"
  by (auto simp: vol_Schema_def)

lemma cv_datetime_is_datetime: "cv_datetime E x = Some y \<Longrightarrow> \<exists>d. y = VDatetime d"
  by (auto simp: cv_datetime_def split: pyval.splits)

lemma cv_string_is_str: "cv_string E x = Some y \<Longrightarrow> \<exists>s. y = VStr s"
  by (auto simp: cv_string_def split: pyval.splits)

lemma UPDATE_SCHEMA_last_scanned:
  assumes "UPDATE_SCHEMA E upd = Inr v" and "upd LAST_SCANNED = Some x"
  shows "\<exists>d. cv_datetime E x = Some (VDatetime d) \<and> v LAST_SCANNED = Some (VDatetime d)"
proof -
  from vol_Schema_present[OF assms[unfolded UPDATE_SCHEMA_def]]
  obtain check y where "map_of (UPDATE_FIELDS E) LAST_SCANNED = Some check" "check x = Some y" "v LAST_SCANNED = Some y"
    by blast
  moreover from this(1) have "check = cv_datetime E"
    by (simp add: UPDATE_FIELDS_def key_defs)
  ultimately show ?thesis using cv_datetime_is_datetime by blast
qed

lemma CREATE_SCHEMA_last_scanned:
  assumes "CREATE_SCHEMA E upd = Inr v" and "upd LAST_SCANNED = Some x"
  shows "\<exists>d. cv_datetime E x = Some (VDatetime d) \<and> v LAST_SCANNED = Some (VDatetime d)"
proof -
  from vol_Schema_present[OF assms[unfolded CREATE_SCHEMA_def]]
  obtain check y where "map_of (CREATE_FIELDS E) LAST_SCANNED = Some check" "check x = Some y" "v LAST_SCANNED = Some y"
    by blast
  moreover from this(1) have "check = cv_datetime E"
    by (simp add: CREATE_FIELDS_def key_defs)
  ultimately show ?thesis using cv_datetime_is_datetime by blast
qed

lemma CREATE_SCHEMA_id:
  assumes "CREATE_SCHEMA E upd = Inr v" and "upd TAG_ID = Some x"
  shows "\<exists>s. cv_string E x = Some (VStr s) \<and> v TAG_ID = Some (VStr s)"
proof -
  from vol_Schema_present[OF assms[unfolded CREATE_SCHEMA_def]]
  obtain check y where "map_of (CREATE_FIELDS E) TAG_ID = Some check" "check x = Some y" "v TAG_ID = Some y"
    by blast
  moreover from this(1) have "check = cv_string E"
    by (simp add: CREATE_FIELDS_def key_defs)
  ultimately show ?thesis using cv_string_is_str by blast
qed

text \<open>What \<open>update_data\<close> returns on a patch the schema admits, and when it fails.\<close>

lemma update_data_result:
  assumes "UPDATE_SCHEMA E upd = Inr v"
  shows "update_data E item upd =
           Inr (case v LAST_SCANNED of
                  Some (VDatetime d) \<Rightarrow> (item ++ v)(LAST_SCANNED \<mapsto> VStr (isoformat E d))
                | _ \<Rightarrow> item ++ v)"
proof (cases "upd LAST_SCANNED")
  case None
  with assms have "v LAST_SCANNED = None"
    by (simp add: UPDATE_SCHEMA_def vol_Schema_absent)
  with None assms show ?thesis
    by (simp add: update_data_def dom_def)
next
  case (Some x)
  from UPDATE_SCHEMA_last_scanned[OF assms Some] obtain d where "v LAST_SCANNED = Some (VDatetime d)"
    by blast
  with Some assms show ?thesis
    by (simp add: update_data_def dom_def py_isoformat_def)
qed

lemma update_data_error: "update_data E item upd = Inl e \<Longrightarrow> e = Invalid \<and> UPDATE_SCHEMA E upd = Inl Invalid"
proof (cases "UPDATE_SCHEMA E upd")
  case (Inl a)
  assume "update_data E item upd = Inl e"
  with Inl show ?thesis
    using vol_Schema_error[of "UPDATE_FIELDS E" upd a]
    by (simp add: update_data_def UPDATE_SCHEMA_def)
next
  case (Inr v)
  assume "update_data E item upd = Inl e"
  with update_data_result[OF Inr, of item] show ?thesis by simp
qed

section \<open>Scanning: the claims\<close>

text \<open>
  C1. Once the component is set up, a scan of \<open>tid\<close> by \<open>device_id\<close> calls the
  collection's update on \<open>tid\<close> with the patch \<open>{last_scanned: now, device_id: device_id if
  it is non-empty, else the empty string}\<close> when \<open>tid\<close> is a key of the collection, and
  otherwise calls its create with the payload \<open>{id: tid, last_scanned: now, device_id:
  the same}\<close>.
\<close>

theorem scan_creates_or_updates:
  assumes "DOMAIN \<in> components h"
  shows "\<exists>fired. async_scan_tag E h tid device_id =
           Inr [fired,
                if VStr tid \<in> dom (helper_data h)
                then Async_update_item (VStr tid)
                       [LAST_SCANNED \<mapsto> VDatetime (utcnow E),
                        DEVICE_ID \<mapsto> VStr (case device_id of None \<Rightarrow> []
                                            | Some s \<Rightarrow> if s \<noteq> [] then s else [])]
                else Async_create_item
                       [TAG_ID \<mapsto> VStr tid,
                        LAST_SCANNED \<mapsto> VDatetime (utcnow E),
                        DEVICE_ID \<mapsto> VStr (case device_id of None \<Rightarrow> []
                                            | Some s \<Rightarrow> if s \<noteq> [] then s else [])]]"
  using assms
  by (cases device_id) (simp_all add: async_scan_tag_def Let_def py_or_def opt_str_def)

theorem scan_creates_or_updates_witness:
  "DOMAIN \<in> components \<lparr> components = {''tag''},
        helper_data = [VStr ''tagA'' \<mapsto> [TAG_ID \<mapsto> VStr ''tagA'' :: nat pyval]] \<rparr>
   \<and> (\<exists>fired. async_scan_tag example_env
          \<lparr> components = {''tag''}, helper_data = [VStr ''tagA'' \<mapsto> [TAG_ID \<mapsto> VStr ''tagA'']] \<rparr>
          ''tagA'' (Some ''deviceY'') =
        Inr [fired, Async_update_item (VStr ''tagA'')
                      [LAST_SCANNED \<mapsto> VDatetime 1, DEVICE_ID \<mapsto> VStr ''deviceY'']])
   \<and> (\<exists>fired. async_scan_tag example_env
          \<lparr> components = {''tag''}, helper_data = [VStr ''tagA'' \<mapsto> [TAG_ID \<mapsto> VStr ''tagA'']] \<rparr>
          ''tagB'' None =
        Inr [fired, Async_create_item
                      [TAG_ID \<mapsto> VStr ''tagB'', LAST_SCANNED \<mapsto> VDatetime 1, DEVICE_ID \<mapsto> VStr '''']])"
proof -
  let ?h = "\<lparr> components = {''tag''}, helper_data = [VStr ''tagA'' \<mapsto> [TAG_ID \<mapsto> VStr ''tagA'' :: nat pyval]] \<rparr>"
  have d: "DOMAIN \<in> components ?h" by (simp add: DOMAIN_def)
  show ?thesis
    using d scan_creates_or_updates[OF d, of example_env "''tagA''" "Some ''deviceY''"]
      scan_creates_or_updates[OF d, of example_env "''tagB''" None]
    by (simp add: example_env_def)
qed

text \<open>
  C9. Once the component is set up, a scan makes exactly two calls: first it fires one
  \<open>tag_scanned\<close> event with the tag id, the device id as given (absent allowed) and the
  name of the collection's current record for the tag (absent when the tag is unknown or
  its record has no name); then it issues the create or update. The event is fired
  whether or not the tag exists, and the second call is not an event.
\<close>

theorem scan_fires_one_event_first:
  assumes "DOMAIN \<in> components h"
  shows "\<exists>mutation. async_scan_tag E h tid device_id =
           Inr [Async_fire EVENT_TAG_SCANNED
                  [TAG_ID \<mapsto> VStr tid,
                   CONF_NAME \<mapsto> (case helper_data h (VStr tid) of
                                   None \<Rightarrow> VNone
                                 | Some record \<Rightarrow> (case record CONF_NAME of
                                                    None \<Rightarrow> VNone
                                                  | Some name \<Rightarrow> name)),
                   DEVICE_ID \<mapsto> (case device_id of None \<Rightarrow> VNone | Some s \<Rightarrow> VStr s)],
                mutation]
         \<and> (\<forall>t d. mutation \<noteq> Async_fire t d)"
  using assms
  by (auto simp: async_scan_tag_def Let_def opt_str_def dict_get_def split: option.splits)

theorem scan_fires_one_event_first_witness:
  "DOMAIN \<in> components \<lparr> components = {''tag''},
        helper_data = [VStr ''tagA'' \<mapsto> [TAG_ID \<mapsto> VStr ''tagA'',
                                            CONF_NAME \<mapsto> VStr ''Door'' :: nat pyval]] \<rparr>
   \<and> (\<exists>mutation. async_scan_tag example_env
          \<lparr> components = {''tag''},
            helper_data = [VStr ''tagA'' \<mapsto> [TAG_ID \<mapsto> VStr ''tagA'', CONF_NAME \<mapsto> VStr ''Door'']] \<rparr>
          ''tagA'' None =
        Inr [Async_fire ''tag_scanned''
               [''id'' \<mapsto> VStr ''tagA'', ''name'' \<mapsto> VStr ''Door'', ''device_id'' \<mapsto> VNone],
             mutation])"
proof -
  let ?h = "\<lparr> components = {''tag''},
        helper_data = [VStr ''tagA'' \<mapsto> [TAG_ID \<mapsto> VStr ''tagA'', CONF_NAME \<mapsto> VStr ''Door'' :: nat pyval]] \<rparr>"
  have d: "DOMAIN \<in> components ?h" by (simp add: DOMAIN_def)
  show ?thesis
    using d scan_fires_one_event_first[OF d, of example_env "''tagA''" None]
    by (auto simp: key_defs EVENT_TAG_SCANNED_def)
qed

section \<open>Creating: the claims\<close>

text \<open>
  C2. A create payload with no id field that otherwise satisfies the schema should get a
  fresh random id. In the code the payload \<open>{name: "Door"}\<close> passes the create schema,
  and the subscript \<^verbatim>\<open>data[TAG_ID]\<close> of \<^verbatim>\<open>_process_create_data\<close> then raises
  \<^verbatim>\<open>KeyError\<close>: no id is generated and the create fails.
\<close>

theorem create_without_id_raises:
  "CREATE_SCHEMA E [CONF_NAME \<mapsto> VStr ''Door''] = Inr [CONF_NAME \<mapsto> VStr ''Door'']
   \<and> process_create_data E [CONF_NAME \<mapsto> VStr ''Door''] = Inl (KeyError (VStr TAG_ID))
   \<and> async_create_item E items [CONF_NAME \<mapsto> VStr ''Door''] = (items, Inl (KeyError (VStr TAG_ID)))"
proof -
  have s: "CREATE_SCHEMA E [CONF_NAME \<mapsto> VStr ''Door''] = Inr [CONF_NAME \<mapsto> VStr ''Door'']"
    by (auto simp: CREATE_SCHEMA_def vol_Schema_def CREATE_FIELDS_def key_defs vol_All_str_Length_def)
  then have p: "process_create_data E [CONF_NAME \<mapsto> VStr ''Door''] = Inl (KeyError (VStr TAG_ID))"
    by (simp add: process_create_data_def key_defs)
  from s p show ?thesis by (simp add: async_create_item_def)
qed

text \<open>What \<open>process_create_data\<close> returns on a payload the schema admits.\<close>

lemma process_create_data_result:
  assumes "CREATE_SCHEMA E data = Inr v" and "v TAG_ID = Some tid"
  shows "process_create_data E data =
           Inr (case v LAST_SCANNED of
                  Some (VDatetime d) \<Rightarrow>
                    (if py_bool tid then v else v(TAG_ID \<mapsto> VStr (uuid4 E)))
                      (LAST_SCANNED \<mapsto> VStr (isoformat E d))
                | _ \<Rightarrow> (if py_bool tid then v else v(TAG_ID \<mapsto> VStr (uuid4 E))))"
proof (cases "data LAST_SCANNED")
  case None
  with assms have "v LAST_SCANNED = None"
    by (simp add: CREATE_SCHEMA_def vol_Schema_absent)
  with assms show ?thesis
    by (simp add: process_create_data_def key_defs)
next
  case (Some x)
  from CREATE_SCHEMA_last_scanned[OF assms(1) Some] obtain d where "v LAST_SCANNED = Some (VDatetime d)"
    by blast
  with assms show ?thesis
    by (simp add: process_create_data_def key_defs py_isoformat_def)
qed

lemma process_create_data_Inr:
  assumes "process_create_data E data = Inr r"
  shows "\<exists>v tid. CREATE_SCHEMA E data = Inr v \<and> v TAG_ID = Some tid"
  using assms by (auto simp: process_create_data_def split: sum.splits option.splits)

lemma cv_datetime_datetime: "cv_datetime E (VDatetime d) = Some (VDatetime d)"
  by (simp add: cv_datetime_def)

lemma cv_string_str: "cv_string E (VStr s) = Some (VStr s)"
  by (simp add: cv_string_def)

text \<open>The update schema has no id key, so no update touches the id.\<close>

lemma UPDATE_SCHEMA_no_id: "TAG_ID \<in> dom upd \<Longrightarrow> UPDATE_SCHEMA E upd = Inl Invalid"
  unfolding UPDATE_SCHEMA_def
  by (rule vol_Schema_extra[of _ TAG_ID]) (auto simp: UPDATE_FIELDS_def key_defs)

lemma update_data_keeps_id:
  assumes "update_data E item upd = Inr r"
  shows "r TAG_ID = item TAG_ID"
proof (cases "UPDATE_SCHEMA E upd")
  case (Inl e)
  with assms show ?thesis by (simp add: update_data_def)
next
  case (Inr v)
  have "upd TAG_ID = None"
    using UPDATE_SCHEMA_no_id[of upd E] Inr by (cases "upd TAG_ID") auto
  with Inr have "v TAG_ID = None"
    by (simp add: UPDATE_SCHEMA_def vol_Schema_absent)
  with assms update_data_result[OF Inr, of item] show ?thesis
    by (auto simp: map_add_def key_defs split: option.splits pyval.splits)
qed

lemma update_all_keeps_id:
  "update_all E item upds = Inr r \<Longrightarrow> r TAG_ID = item TAG_ID"
proof (induction upds arbitrary: item)
  case Nil
  then show ?case by simp
next
  case (Cons upd upds)
  then obtain item' where 1: "update_data E item upd = Inr item'" and 2: "update_all E item' upds = Inr r"
    by (auto split: sum.splits)
  from Cons.IH[OF 2] update_data_keeps_id[OF 1] show ?case by simp
qed

lemma update_all_prefix:
  "update_all E item (xs @ ys) = Inr r \<Longrightarrow> \<exists>r'. update_all E item xs = Inr r'"
  by (induction xs arbitrary: item) (auto split: sum.splits)

section \<open>Updating: the claims\<close>

text \<open>
  C7. The update schema admits no id field: a patch that carries an id is refused with
  \<^verbatim>\<open>vol.Invalid\<close> (an extra key). After every update of a run of successful updates on
  a record, the record's id is the one it started with.
\<close>

theorem update_never_changes_id:
  "(TAG_ID \<in> dom upd \<longrightarrow> update_data E item upd = Inl Invalid)
   \<and> (update_all E item upds = Inr item' \<longrightarrow>
        (\<forall>n \<le> length upds. \<exists>r. update_all E item (take n upds) = Inr r \<and> r TAG_ID = item TAG_ID))"
proof (intro conjI impI allI)
  assume "TAG_ID \<in> dom upd"
  then show "update_data E item upd = Inl Invalid"
    by (simp add: update_data_def UPDATE_SCHEMA_no_id)
next
  fix n
  assume all: "update_all E item upds = Inr item'" and "n \<le> length upds"
  from all have "update_all E item (take n upds @ drop n upds) = Inr item'" by simp
  then obtain r where r: "update_all E item (take n upds) = Inr r"
    using update_all_prefix by blast
  with update_all_keeps_id[OF r] show "\<exists>r. update_all E item (take n upds) = Inr r \<and> r TAG_ID = item TAG_ID"
    by simp
qed


theorem update_never_changes_id_witness:
  "TAG_ID \<in> dom [TAG_ID \<mapsto> VStr ''tagB'' :: nat pyval]
   \<and> update_data example_env [TAG_ID \<mapsto> VStr ''tagA''] [TAG_ID \<mapsto> VStr ''tagB''] = Inl Invalid
   \<and> update_all example_env [TAG_ID \<mapsto> VStr ''tagA'']
        [[DEVICE_ID \<mapsto> VStr ''deviceX''], [CONF_NAME \<mapsto> VStr ''Door'']]
      = Inr [TAG_ID \<mapsto> VStr ''tagA'', DEVICE_ID \<mapsto> VStr ''deviceX'', CONF_NAME \<mapsto> VStr ''Door'']
   \<and> (\<exists>r. update_all example_env [TAG_ID \<mapsto> VStr ''tagA'']
              (take 1 [[DEVICE_ID \<mapsto> VStr ''deviceX''], [CONF_NAME \<mapsto> VStr ''Door'']]) = Inr r
            \<and> r TAG_ID = Some (VStr ''tagA''))"
proof -
  let ?item = "[TAG_ID \<mapsto> VStr ''tagA'' :: nat pyval]"
  let ?upds = "[[DEVICE_ID \<mapsto> VStr ''deviceX''], [CONF_NAME \<mapsto> VStr ''Door'' :: nat pyval]]"
  have 1: "UPDATE_SCHEMA example_env [DEVICE_ID \<mapsto> VStr ''deviceX''] = Inr [DEVICE_ID \<mapsto> VStr ''deviceX'']"
    by (auto simp: UPDATE_SCHEMA_def vol_Schema_def UPDATE_FIELDS_def key_defs cv_string_def)
  have 2: "UPDATE_SCHEMA example_env [CONF_NAME \<mapsto> VStr ''Door''] = Inr [CONF_NAME \<mapsto> VStr ''Door'']"
    by (auto simp: UPDATE_SCHEMA_def vol_Schema_def UPDATE_FIELDS_def key_defs vol_All_str_Length_def)
  have run: "update_all example_env ?item ?upds
      = Inr [TAG_ID \<mapsto> VStr ''tagA'', DEVICE_ID \<mapsto> VStr ''deviceX'', CONF_NAME \<mapsto> VStr ''Door'']"
  proof -
    have "update_data example_env ?item [DEVICE_ID \<mapsto> VStr ''deviceX'']
            = Inr [TAG_ID \<mapsto> VStr ''tagA'', DEVICE_ID \<mapsto> VStr ''deviceX'']"
      using update_data_result[OF 1, of ?item] by (simp add: key_defs)
    moreover have "update_data example_env [TAG_ID \<mapsto> VStr ''tagA'', DEVICE_ID \<mapsto> VStr ''deviceX'']
                     [CONF_NAME \<mapsto> VStr ''Door'']
            = Inr [TAG_ID \<mapsto> VStr ''tagA'', DEVICE_ID \<mapsto> VStr ''deviceX'', CONF_NAME \<mapsto> VStr ''Door'']"
      using update_data_result[OF 2, of "[TAG_ID \<mapsto> VStr ''tagA'', DEVICE_ID \<mapsto> VStr ''deviceX'']"]
      by (simp add: key_defs)
    ultimately show ?thesis by simp
  qed
  have dom: "TAG_ID \<in> dom [TAG_ID \<mapsto> VStr ''tagB'' :: nat pyval]" by simp
  from update_never_changes_id[of "[TAG_ID \<mapsto> VStr ''tagB'']" example_env ?item ?upds] run dom
  have "update_data example_env ?item [TAG_ID \<mapsto> VStr ''tagB''] = Inl Invalid"
    and "\<forall>n \<le> length ?upds. \<exists>r. update_all example_env ?item (take n ?upds) = Inr r \<and> r TAG_ID = ?item TAG_ID"
    by blast+
  with run dom show ?thesis by (auto dest!: spec[of _ 1])
qed

text \<open>
  C6, as stated, fails on the code. A value of the wrong type for \<open>device_id\<close> or
  \<open>description\<close> is not refused: their validator \<^verbatim>\<open>cv.string\<close> coerces a value that is
  not a string to its string form. The patch \<open>{device_id: 5}\<close> passes the update schema
  and the update stores \<open>device_id\<close> as the string \<open>5\<close>.
\<close>

theorem update_wrong_type_counterexample:
  "UPDATE_SCHEMA example_env [DEVICE_ID \<mapsto> VInt 5] = Inr [DEVICE_ID \<mapsto> VStr ''5'']
   \<and> update_data example_env [TAG_ID \<mapsto> VStr ''tagA''] [DEVICE_ID \<mapsto> VInt 5]
       = Inr [TAG_ID \<mapsto> VStr ''tagA'', DEVICE_ID \<mapsto> VStr ''5'']
   \<and> update_data example_env [TAG_ID \<mapsto> VStr ''tagA''] [DEVICE_ID \<mapsto> VInt 5]
       \<noteq> Inl Invalid"
proof -
  have c: "cv_string example_env (VInt 5) = Some (VStr ''5'')"
    by (simp add: cv_string_def example_env_def str_int_def str_nat.simps)
  have s: "UPDATE_SCHEMA example_env [DEVICE_ID \<mapsto> VInt 5] = Inr [DEVICE_ID \<mapsto> VStr ''5'']"
    by (auto simp: UPDATE_SCHEMA_def vol_Schema_def UPDATE_FIELDS_def key_defs c)
  have u: "update_data example_env [TAG_ID \<mapsto> VStr ''tagA''] [DEVICE_ID \<mapsto> VInt 5]
             = Inr [TAG_ID \<mapsto> VStr ''tagA'', DEVICE_ID \<mapsto> VStr ''5'']"
    using update_data_result[OF s, of "[TAG_ID \<mapsto> VStr ''tagA'']"] by (simp add: key_defs)
  from u have n: "update_data example_env [TAG_ID \<mapsto> VStr ''tagA''] [DEVICE_ID \<mapsto> VInt 5]
             \<noteq> Inl Invalid"
    by simp
  show ?thesis by (intro conjI s u n)
qed

text \<open>
  C6, amended. For a patch the update schema admits, with validated form \<open>v\<close>, the update
  returns the existing record with exactly the patch's fields overwritten by their
  validated values (what the field's validator returns; the validated \<open>last_scanned\<close>
  datetime in its string form) and every other field as it was. A patch the schema
  refuses fails with \<^verbatim>\<open>vol.Invalid\<close>: so does a name shorter than 1, a name that is not a
  string, any value its field's validator refuses, and any field outside name,
  description, last_scanned and device_id. A patch with none of these is admitted: a value
  of another type that its field's validator accepts is converted, not refused.
\<close>

theorem update_overwrites_patch_fields:
  "(UPDATE_SCHEMA E upd = Inr v \<longrightarrow>
      (\<exists>r. update_data E item upd = Inr r
          \<and> dom v = dom upd
          \<and> (\<forall>k. k \<notin> dom upd \<longrightarrow> r k = item k)
          \<and> (\<forall>k. k \<in> dom upd \<and> k \<noteq> LAST_SCANNED \<longrightarrow> r k = v k)
          \<and> (LAST_SCANNED \<in> dom upd \<longrightarrow>
               (\<exists>d. v LAST_SCANNED = Some (VDatetime d)
                   \<and> r LAST_SCANNED = Some (VStr (isoformat E d))))))
   \<and> (UPDATE_SCHEMA E upd = Inl e \<longrightarrow> update_data E item upd = Inl Invalid)
   \<and> (upd CONF_NAME = Some (VStr s) \<and> length s < 1 \<longrightarrow> update_data E item upd = Inl Invalid)
   \<and> (upd CONF_NAME = Some x \<and> (\<forall>s. x \<noteq> VStr s) \<longrightarrow> update_data E item upd = Inl Invalid)
   \<and> ((k, check) \<in> set (UPDATE_FIELDS E) \<and> upd k = Some x \<and> check x = None
        \<longrightarrow> update_data E item upd = Inl Invalid)
   \<and> (k \<in> dom upd \<and> k \<notin> {CONF_NAME, DESCRIPTION, LAST_SCANNED, DEVICE_ID}
        \<longrightarrow> update_data E item upd = Inl Invalid)
   \<and> (UPDATE_SCHEMA E upd = Inr v \<and> (k, check) \<in> set (UPDATE_FIELDS E) \<and> upd k = Some x
        \<longrightarrow> v k = check x)
   \<and> (dom upd \<subseteq> {CONF_NAME, DESCRIPTION, LAST_SCANNED, DEVICE_ID}
        \<and> (\<forall>k check x. (k, check) \<in> set (UPDATE_FIELDS E) \<and> upd k = Some x
               \<longrightarrow> check x \<noteq> None)
        \<longrightarrow> (\<exists>v. UPDATE_SCHEMA E upd = Inr v))"
proof (intro conjI impI)
  assume ok: "UPDATE_SCHEMA E upd = Inr v"
  have dv: "dom v = dom upd"
    using ok by (simp add: UPDATE_SCHEMA_def vol_Schema_dom)
  let ?r = "case v LAST_SCANNED of
              Some (VDatetime d) \<Rightarrow> (item ++ v)(LAST_SCANNED \<mapsto> VStr (isoformat E d))
            | _ \<Rightarrow> item ++ v"
  have res: "update_data E item upd = Inr ?r"
    by (rule update_data_result[OF ok])
  have keep: "\<forall>k. k \<notin> dom upd \<longrightarrow> ?r k = item k"
  proof (intro allI impI)
    fix k assume "k \<notin> dom upd"
    with dv have "k \<notin> dom v" by simp
    then have n: "v k = None" by (simp add: domIff)
    then have "k \<noteq> LAST_SCANNED \<or> v LAST_SCANNED = None" by auto
    with n show "?r k = item k"
      by (auto simp: map_add_def split: option.splits pyval.splits)
  qed
  have over: "\<forall>k. k \<in> dom upd \<and> k \<noteq> LAST_SCANNED \<longrightarrow> ?r k = v k"
  proof (intro allI impI)
    fix k assume "k \<in> dom upd \<and> k \<noteq> LAST_SCANNED"
    with dv have "k \<in> dom v" "k \<noteq> LAST_SCANNED" by simp_all
    then have "v k \<noteq> None" "k \<noteq> LAST_SCANNED" by (simp_all add: domIff)
    then show "?r k = v k"
      by (auto simp: map_add_def split: option.splits pyval.splits)
  qed
  have ls: "LAST_SCANNED \<in> dom upd \<longrightarrow>
               (\<exists>d. v LAST_SCANNED = Some (VDatetime d) \<and> ?r LAST_SCANNED = Some (VStr (isoformat E d)))"
  proof
    assume "LAST_SCANNED \<in> dom upd"
    then obtain x where "upd LAST_SCANNED = Some x" by auto
    from UPDATE_SCHEMA_last_scanned[OF ok this] obtain d where "v LAST_SCANNED = Some (VDatetime d)"
      by blast
    then show "\<exists>d. v LAST_SCANNED = Some (VDatetime d) \<and> ?r LAST_SCANNED = Some (VStr (isoformat E d))"
      by simp
  qed
  from res dv keep over ls
  show "\<exists>r. update_data E item upd = Inr r
          \<and> dom v = dom upd
          \<and> (\<forall>k. k \<notin> dom upd \<longrightarrow> r k = item k)
          \<and> (\<forall>k. k \<in> dom upd \<and> k \<noteq> LAST_SCANNED \<longrightarrow> r k = v k)
          \<and> (LAST_SCANNED \<in> dom upd \<longrightarrow>
               (\<exists>d. v LAST_SCANNED = Some (VDatetime d)
                   \<and> r LAST_SCANNED = Some (VStr (isoformat E d))))"
    by blast
next
  assume "UPDATE_SCHEMA E upd = Inl e"
  then show "update_data E item upd = Inl Invalid"
    using vol_Schema_error[of "UPDATE_FIELDS E" upd e]
    by (simp add: update_data_def UPDATE_SCHEMA_def)
next
  assume "upd CONF_NAME = Some (VStr s) \<and> length s < 1"
  then have "vol_Schema (UPDATE_FIELDS E) upd = Inl Invalid"
    by (intro vol_Schema_reject[of CONF_NAME "vol_All_str_Length 1"])
       (auto simp: UPDATE_FIELDS_def vol_All_str_Length_def)
  then show "update_data E item upd = Inl Invalid"
    by (simp add: update_data_def UPDATE_SCHEMA_def)
next
  assume "upd CONF_NAME = Some x \<and> (\<forall>s. x \<noteq> VStr s)"
  then have "vol_Schema (UPDATE_FIELDS E) upd = Inl Invalid"
    by (intro vol_Schema_reject[of CONF_NAME "vol_All_str_Length 1"])
       (auto simp: UPDATE_FIELDS_def vol_All_str_Length_def split: pyval.splits)
  then show "update_data E item upd = Inl Invalid"
    by (simp add: update_data_def UPDATE_SCHEMA_def)
next
  assume "(k, check) \<in> set (UPDATE_FIELDS E) \<and> upd k = Some x \<and> check x = None"
  then have "vol_Schema (UPDATE_FIELDS E) upd = Inl Invalid"
    by (auto intro: vol_Schema_reject)
  then show "update_data E item upd = Inl Invalid"
    by (simp add: update_data_def UPDATE_SCHEMA_def)
next
  assume "k \<in> dom upd \<and> k \<notin> {CONF_NAME, DESCRIPTION, LAST_SCANNED, DEVICE_ID}"
  then have "vol_Schema (UPDATE_FIELDS E) upd = Inl Invalid"
    by (intro vol_Schema_extra[of _ k]) (auto simp: UPDATE_FIELDS_def)
  then show "update_data E item upd = Inl Invalid"
    by (simp add: update_data_def UPDATE_SCHEMA_def)
next
  assume a: "UPDATE_SCHEMA E upd = Inr v \<and> (k, check) \<in> set (UPDATE_FIELDS E) \<and> upd k = Some x"
  then have ok: "vol_Schema (UPDATE_FIELDS E) upd = Inr v" and mem: "(k, check) \<in> set (UPDATE_FIELDS E)"
    and x: "upd k = Some x"
    by (simp_all add: UPDATE_SCHEMA_def)
  have dist: "distinct (map fst (UPDATE_FIELDS E))"
    by (simp add: UPDATE_FIELDS_def key_defs)
  have m: "map_of (UPDATE_FIELDS E) k = Some check"
    using dist mem by (rule map_of_is_SomeI)
  from vol_Schema_present[OF ok x] obtain check' y
    where "map_of (UPDATE_FIELDS E) k = Some check'" "check' x = Some y" "v k = Some y"
    by blast
  with m show "v k = check x" by simp
next
  assume a: "dom upd \<subseteq> {CONF_NAME, DESCRIPTION, LAST_SCANNED, DEVICE_ID}
      \<and> (\<forall>k check x. (k, check) \<in> set (UPDATE_FIELDS E) \<and> upd k = Some x \<longrightarrow> check x \<noteq> None)"
  then have 1: "dom upd \<subseteq> set (map fst (UPDATE_FIELDS E))"
    by (simp add: UPDATE_FIELDS_def)
  from a have 2: "list_all (\<lambda>(k, check). case upd k of None \<Rightarrow> True
                                               | Some v \<Rightarrow> check v \<noteq> None) (UPDATE_FIELDS E)"
    unfolding list_all_iff by (auto split: option.splits)
  from 1 2 show "\<exists>v. UPDATE_SCHEMA E upd = Inr v"
    by (simp add: UPDATE_SCHEMA_def vol_Schema_def)
qed

theorem update_overwrites_patch_fields_witness:
  "UPDATE_SCHEMA example_env [DEVICE_ID \<mapsto> VStr ''deviceY'', LAST_SCANNED \<mapsto> VDatetime 1]
     = Inr [DEVICE_ID \<mapsto> VStr ''deviceY'', LAST_SCANNED \<mapsto> VDatetime 1]
   \<and> (\<exists>r. update_data example_env
              [TAG_ID \<mapsto> VStr ''tagA'', CONF_NAME \<mapsto> VStr ''Door'',
               LAST_SCANNED \<mapsto> VStr ''1970-01-01T00:00:00+00:00'']
              [DEVICE_ID \<mapsto> VStr ''deviceY'', LAST_SCANNED \<mapsto> VDatetime 1] = Inr r
          \<and> r TAG_ID = Some (VStr ''tagA'')
          \<and> r CONF_NAME = Some (VStr ''Door'')
          \<and> r DEVICE_ID = Some (VStr ''deviceY'')
          \<and> r LAST_SCANNED = Some (VStr ''1970-01-01T00:00:01+00:00''))
   \<and> UPDATE_SCHEMA example_env [CONF_NAME \<mapsto> VStr []] = Inl Invalid
   \<and> update_data example_env [TAG_ID \<mapsto> VStr ''tagA''] [CONF_NAME \<mapsto> VStr []] = Inl Invalid
   \<and> update_data example_env [TAG_ID \<mapsto> VStr ''tagA''] [CONF_NAME \<mapsto> VInt 5] = Inl Invalid
   \<and> update_data example_env [TAG_ID \<mapsto> VStr ''tagA''] [''colour'' \<mapsto> VStr ''red''] = Inl Invalid
   \<and> UPDATE_SCHEMA example_env [DEVICE_ID \<mapsto> VInt 5] = Inr [DEVICE_ID \<mapsto> VStr ''5'']
   \<and> (DEVICE_ID, cv_string example_env) \<in> set (UPDATE_FIELDS example_env)
   \<and> [DEVICE_ID \<mapsto> VStr ''5'' :: nat pyval] DEVICE_ID = cv_string example_env (VInt 5)
   \<and> dom [DEVICE_ID \<mapsto> VStr ''deviceY'', LAST_SCANNED \<mapsto> VDatetime (1::nat)]
         \<subseteq> {CONF_NAME, DESCRIPTION, LAST_SCANNED, DEVICE_ID}
   \<and> (\<exists>v. UPDATE_SCHEMA example_env
              [DEVICE_ID \<mapsto> VStr ''deviceY'', LAST_SCANNED \<mapsto> VDatetime 1] = Inr v)"
proof -
  let ?item = "[TAG_ID \<mapsto> VStr ''tagA'', CONF_NAME \<mapsto> VStr ''Door'',
               LAST_SCANNED \<mapsto> VStr ''1970-01-01T00:00:00+00:00'' :: nat pyval]"
  let ?upd = "[DEVICE_ID \<mapsto> VStr ''deviceY'', LAST_SCANNED \<mapsto> VDatetime (1::nat)]"
  let ?a = "[TAG_ID \<mapsto> VStr ''tagA'' :: nat pyval]"
  note T = update_overwrites_patch_fields
  have ok: "UPDATE_SCHEMA example_env ?upd = Inr ?upd"
    by (auto simp: UPDATE_SCHEMA_def vol_Schema_def UPDATE_FIELDS_def key_defs cv_string_def
        cv_datetime_def)
  from T[where E = example_env and upd = ?upd and v = ?upd and item = ?item,
         THEN conjunct1, THEN mp, OF ok]
  obtain r where r: "update_data example_env ?item ?upd = Inr r"
    and keep: "\<forall>k. k \<notin> dom ?upd \<longrightarrow> r k = ?item k"
    and over: "\<forall>k. k \<in> dom ?upd \<and> k \<noteq> LAST_SCANNED \<longrightarrow> r k = ?upd k"
    and ls: "LAST_SCANNED \<in> dom ?upd \<longrightarrow>
               (\<exists>d. ?upd LAST_SCANNED = Some (VDatetime d)
                   \<and> r LAST_SCANNED = Some (VStr (isoformat example_env d)))"
    by (elim exE conjE)
  from keep[rule_format, of TAG_ID] have 1: "r TAG_ID = Some (VStr ''tagA'')"
    by (simp add: key_defs)
  from keep[rule_format, of CONF_NAME] have 2: "r CONF_NAME = Some (VStr ''Door'')"
    by (simp add: key_defs)
  from over[rule_format, of DEVICE_ID] have 3: "r DEVICE_ID = Some (VStr ''deviceY'')"
    by (simp add: key_defs)
  from ls have 4: "r LAST_SCANNED = Some (VStr ''1970-01-01T00:00:01+00:00'')"
    by (simp add: example_env_def)
  have bad: "UPDATE_SCHEMA example_env [CONF_NAME \<mapsto> VStr []] = Inl Invalid"
    by (simp add: UPDATE_SCHEMA_def vol_Schema_def UPDATE_FIELDS_def key_defs vol_All_str_Length_def)
  have 5: "update_data example_env ?a [CONF_NAME \<mapsto> VStr []] = Inl Invalid"
    by (rule T[where e = Invalid, THEN conjunct2, THEN conjunct1, THEN mp, OF bad])
  have 6: "update_data example_env ?a [CONF_NAME \<mapsto> VInt 5] = Inl Invalid"
    by (rule T[where x = "VInt 5", THEN conjunct2, THEN conjunct2, THEN conjunct2, THEN conjunct1, THEN mp])
       simp
  have 7: "update_data example_env ?a [''colour'' \<mapsto> VStr ''red''] = Inl Invalid"
    by (rule T[where k = "''colour''", THEN conjunct2, THEN conjunct2, THEN conjunct2, THEN conjunct2,
                THEN conjunct2, THEN conjunct1, THEN mp])
       (simp add: key_defs)
  have c: "cv_string example_env (VInt 5) = Some (VStr ''5'')"
    by (simp add: cv_string_def example_env_def str_int_def str_nat.simps)
  have co: "UPDATE_SCHEMA example_env [DEVICE_ID \<mapsto> VInt 5] = Inr [DEVICE_ID \<mapsto> VStr ''5'']"
    by (auto simp: UPDATE_SCHEMA_def vol_Schema_def UPDATE_FIELDS_def key_defs c)
  have mem: "(DEVICE_ID, cv_string example_env) \<in> set (UPDATE_FIELDS example_env)"
    by (simp add: UPDATE_FIELDS_def)
  have at: "[DEVICE_ID \<mapsto> VInt 5 :: nat pyval] DEVICE_ID = Some (VInt 5)"
    by simp
  have 8: "[DEVICE_ID \<mapsto> VStr ''5'' :: nat pyval] DEVICE_ID = cv_string example_env (VInt 5)"
    by (rule T[where E = example_env and upd = "[DEVICE_ID \<mapsto> VInt 5]"
                 and v = "[DEVICE_ID \<mapsto> VStr ''5'']" and k = DEVICE_ID
                 and check = "cv_string example_env" and x = "VInt 5",
               THEN conjunct2, THEN conjunct2, THEN conjunct2, THEN conjunct2,
               THEN conjunct2, THEN conjunct2, THEN conjunct1, THEN mp,
               OF conjI, OF co conjI, OF mem at])
  have sub: "dom ?upd \<subseteq> {CONF_NAME, DESCRIPTION, LAST_SCANNED, DEVICE_ID}"
    by simp
  have acc: "\<forall>k check x. (k, check) \<in> set (UPDATE_FIELDS example_env) \<and> ?upd k = Some x
               \<longrightarrow> check x \<noteq> None"
    by (auto simp: UPDATE_FIELDS_def key_defs cv_string_def cv_datetime_def split: if_splits)
  have 9: "\<exists>v. UPDATE_SCHEMA example_env ?upd = Inr v"
    by (rule T[where E = example_env and upd = ?upd,
               THEN conjunct2, THEN conjunct2, THEN conjunct2, THEN conjunct2,
               THEN conjunct2, THEN conjunct2, THEN conjunct2, THEN mp,
               OF conjI, OF sub acc])
  from r 1 2 3 4 have "\<exists>r. update_data example_env ?item ?upd = Inr r
          \<and> r TAG_ID = Some (VStr ''tagA'')
          \<and> r CONF_NAME = Some (VStr ''Door'')
          \<and> r DEVICE_ID = Some (VStr ''deviceY'')
          \<and> r LAST_SCANNED = Some (VStr ''1970-01-01T00:00:01+00:00'')"
    by (intro exI[of _ r] conjI)
  with ok bad 5 6 7 co mem 8 sub 9 show ?thesis by (intro conjI)
qed

section \<open>Stored timestamps: the claim\<close>

lemma process_create_data_last_scanned:
  assumes "process_create_data E data = Inr r"
  shows "last_scanned_str r
         \<and> (\<forall>d. data LAST_SCANNED = Some (VDatetime d)
                \<longrightarrow> r LAST_SCANNED = Some (VStr (isoformat E d)))"
proof -
  from process_create_data_Inr[OF assms] obtain v tid
    where v: "CREATE_SCHEMA E data = Inr v" and tid: "v TAG_ID = Some tid"
    by blast
  note res = process_create_data_result[OF v tid]
  show ?thesis
  proof (cases "data LAST_SCANNED")
    case None
    with v have "v LAST_SCANNED = None"
      by (simp add: CREATE_SCHEMA_def vol_Schema_absent)
    with res assms None show ?thesis
      by (auto simp: last_scanned_str_def key_defs)
  next
    case (Some x)
    from CREATE_SCHEMA_last_scanned[OF v Some] obtain d'
      where d': "cv_datetime E x = Some (VDatetime d')" "v LAST_SCANNED = Some (VDatetime d')"
      by blast
    with res assms have "r LAST_SCANNED = Some (VStr (isoformat E d'))"
      by auto
    with Some d' show ?thesis
      by (auto simp: last_scanned_str_def cv_datetime_datetime)
  qed
qed

lemma update_data_last_scanned:
  assumes "update_data E item upd = Inr r"
  shows "(last_scanned_str item \<longrightarrow> last_scanned_str r)
         \<and> (\<forall>d. upd LAST_SCANNED = Some (VDatetime d)
                \<longrightarrow> r LAST_SCANNED = Some (VStr (isoformat E d)))"
proof -
  obtain v where v: "UPDATE_SCHEMA E upd = Inr v"
    using assms by (cases "UPDATE_SCHEMA E upd") (auto simp: update_data_def)
  note res = update_data_result[OF v, of item]
  show ?thesis
  proof (cases "upd LAST_SCANNED")
    case None
    with v have "v LAST_SCANNED = None"
      by (simp add: UPDATE_SCHEMA_def vol_Schema_absent)
    with res assms None show ?thesis
      by (auto simp: last_scanned_str_def map_add_def)
  next
    case (Some x)
    from UPDATE_SCHEMA_last_scanned[OF v Some] obtain d'
      where d': "cv_datetime E x = Some (VDatetime d')" "v LAST_SCANNED = Some (VDatetime d')"
      by blast
    with res assms have "r LAST_SCANNED = Some (VStr (isoformat E d'))"
      by auto
    with Some d' show ?thesis
      by (auto simp: last_scanned_str_def cv_datetime_datetime)
  qed
qed

lemma stored_last_scanned_str_upd:
  "stored_last_scanned_str items \<Longrightarrow> last_scanned_str item
     \<Longrightarrow> stored_last_scanned_str (items(i \<mapsto> item))"
  unfolding stored_last_scanned_str_def ran_def by auto

lemma last_scanned_str_id: "last_scanned_str r \<Longrightarrow> last_scanned_str (r(TAG_ID \<mapsto> x))"
  by (simp add: last_scanned_str_def key_defs)

text \<open>
  C8. A successful create or update whose payload carried a datetime as \<open>last_scanned\<close>
  returns, and stores, a record whose \<open>last_scanned\<close> is that datetime's
  \<^verbatim>\<open>isoformat()\<close> string. No record with a \<open>last_scanned\<close> that is not a string reaches
  the map: what create returns has a string or no \<open>last_scanned\<close>, update keeps that
  property of the record it updates, and so both keep it of the whole map.
\<close>

theorem last_scanned_stored_as_string:
  "(process_create_data E data = Inr r1 \<longrightarrow>
      last_scanned_str r1
      \<and> (data LAST_SCANNED = Some (VDatetime d) \<longrightarrow> r1 LAST_SCANNED = Some (VStr (isoformat E d))))
   \<and> (update_data E item upd = Inr r2 \<longrightarrow>
      (last_scanned_str item \<longrightarrow> last_scanned_str r2)
      \<and> (upd LAST_SCANNED = Some (VDatetime d) \<longrightarrow> r2 LAST_SCANNED = Some (VStr (isoformat E d))))
   \<and> (async_create_item E items data = (items1, Inr r3) \<and> stored_last_scanned_str items \<longrightarrow>
      stored_last_scanned_str items1
      \<and> (data LAST_SCANNED = Some (VDatetime d) \<longrightarrow> r3 LAST_SCANNED = Some (VStr (isoformat E d))))
   \<and> (async_update_item E items i upd = (items2, Inr r4) \<and> stored_last_scanned_str items \<longrightarrow>
      stored_last_scanned_str items2
      \<and> (upd LAST_SCANNED = Some (VDatetime d) \<longrightarrow>
            items2 i = Some r4 \<and> r4 LAST_SCANNED = Some (VStr (isoformat E d))))"
proof (intro conjI impI)
  assume "process_create_data E data = Inr r1"
  from process_create_data_last_scanned[OF this]
  show "last_scanned_str r1" by simp
next
  assume "process_create_data E data = Inr r1" "data LAST_SCANNED = Some (VDatetime d)"
  with process_create_data_last_scanned[of E data r1]
  show "r1 LAST_SCANNED = Some (VStr (isoformat E d))" by simp
next
  assume "update_data E item upd = Inr r2" "last_scanned_str item"
  with update_data_last_scanned[of E item upd r2]
  show "last_scanned_str r2" by simp
next
  assume "update_data E item upd = Inr r2" "upd LAST_SCANNED = Some (VDatetime d)"
  with update_data_last_scanned[of E item upd r2]
  show "r2 LAST_SCANNED = Some (VStr (isoformat E d))" by simp
next
  assume a: "async_create_item E items data = (items1, Inr r3) \<and> stored_last_scanned_str items"
  then obtain validated item_id where p: "process_create_data E data = Inr validated"
    and r3: "r3 = validated(TAG_ID \<mapsto> item_id)" and i1: "items1 = items(item_id \<mapsto> r3)"
    by (auto simp: async_create_item_def Let_def split: sum.splits)
  from process_create_data_last_scanned[OF p] r3 have "last_scanned_str r3"
    by (simp add: last_scanned_str_id)
  with a i1 show "stored_last_scanned_str items1"
    by (simp add: stored_last_scanned_str_upd)
  {
    assume "data LAST_SCANNED = Some (VDatetime d)"
    with process_create_data_last_scanned[OF p] r3
    show "r3 LAST_SCANNED = Some (VStr (isoformat E d))"
      by (simp add: key_defs)
  }
next
  assume a: "async_update_item E items i upd = (items2, Inr r4) \<and> stored_last_scanned_str items"
  then obtain current where c: "items i = Some current"
    and u: "update_data E current upd = Inr r4" and i2: "items2 = items(i \<mapsto> r4)"
    by (auto simp: async_update_item_def split: option.splits sum.splits)
  from a c have "last_scanned_str current"
    by (auto simp: stored_last_scanned_str_def ran_def)
  with update_data_last_scanned[OF u] have "last_scanned_str r4" by simp
  with a i2 show "stored_last_scanned_str items2"
    by (simp add: stored_last_scanned_str_upd)
  {
    assume "upd LAST_SCANNED = Some (VDatetime d)"
    with update_data_last_scanned[OF u] i2
    show "items2 i = Some r4" "r4 LAST_SCANNED = Some (VStr (isoformat E d))"
      by simp_all
  }
qed

theorem last_scanned_stored_as_string_witness:
  "process_create_data example_env [TAG_ID \<mapsto> VStr ''tagA'', LAST_SCANNED \<mapsto> VDatetime 1]
     = Inr [TAG_ID \<mapsto> VStr ''tagA'', LAST_SCANNED \<mapsto> VStr ''1970-01-01T00:00:01+00:00'']
   \<and> last_scanned_str
        [TAG_ID \<mapsto> VStr ''tagA'', LAST_SCANNED \<mapsto> VStr ''1970-01-01T00:00:01+00:00'' :: nat pyval]
   \<and> update_data example_env
        [TAG_ID \<mapsto> VStr ''tagA'', LAST_SCANNED \<mapsto> VStr ''1970-01-01T00:00:01+00:00'']
        [LAST_SCANNED \<mapsto> VDatetime 0]
     = Inr [TAG_ID \<mapsto> VStr ''tagA'', LAST_SCANNED \<mapsto> VStr ''1970-01-01T00:00:00+00:00'']
   \<and> last_scanned_str
        [TAG_ID \<mapsto> VStr ''tagA'', LAST_SCANNED \<mapsto> VStr ''1970-01-01T00:00:00+00:00'' :: nat pyval]
   \<and> async_create_item example_env Map.empty [TAG_ID \<mapsto> VStr ''tagA'', LAST_SCANNED \<mapsto> VDatetime 1]
     = ([VStr ''tagA'' \<mapsto> [TAG_ID \<mapsto> VStr ''tagA'',
                             LAST_SCANNED \<mapsto> VStr ''1970-01-01T00:00:01+00:00'']],
        Inr [TAG_ID \<mapsto> VStr ''tagA'', LAST_SCANNED \<mapsto> VStr ''1970-01-01T00:00:01+00:00''])
   \<and> stored_last_scanned_str
        [VStr ''tagA'' \<mapsto> [TAG_ID \<mapsto> VStr ''tagA'',
                            LAST_SCANNED \<mapsto> VStr ''1970-01-01T00:00:01+00:00'' :: nat pyval]]
   \<and> async_update_item example_env
        [VStr ''tagA'' \<mapsto> [TAG_ID \<mapsto> VStr ''tagA'',
                            LAST_SCANNED \<mapsto> VStr ''1970-01-01T00:00:01+00:00'']]
        (VStr ''tagA'') [LAST_SCANNED \<mapsto> VDatetime 0]
     = ([VStr ''tagA'' \<mapsto> [TAG_ID \<mapsto> VStr ''tagA'',
                             LAST_SCANNED \<mapsto> VStr ''1970-01-01T00:00:00+00:00'']],
        Inr [TAG_ID \<mapsto> VStr ''tagA'', LAST_SCANNED \<mapsto> VStr ''1970-01-01T00:00:00+00:00''])
   \<and> stored_last_scanned_str
        [VStr ''tagA'' \<mapsto> [TAG_ID \<mapsto> VStr ''tagA'',
                            LAST_SCANNED \<mapsto> VStr ''1970-01-01T00:00:00+00:00'' :: nat pyval]]"
proof -
  let ?D = "[TAG_ID \<mapsto> VStr ''tagA'', LAST_SCANNED \<mapsto> VDatetime (1::nat)]"
  let ?U = "[LAST_SCANNED \<mapsto> VDatetime (0::nat)]"
  let ?R = "[TAG_ID \<mapsto> VStr ''tagA'', LAST_SCANNED \<mapsto> VStr ''1970-01-01T00:00:01+00:00'' :: nat pyval]"
  let ?R' = "[TAG_ID \<mapsto> VStr ''tagA'', LAST_SCANNED \<mapsto> VStr ''1970-01-01T00:00:00+00:00'' :: nat pyval]"
  note T = last_scanned_stored_as_string
  have cs: "CREATE_SCHEMA example_env ?D = Inr ?D"
    by (auto simp: CREATE_SCHEMA_def vol_Schema_def CREATE_FIELDS_def key_defs cv_string_def
        cv_datetime_def)
  have p: "process_create_data example_env ?D = Inr ?R"
    using process_create_data_result[OF cs, of "VStr ''tagA''"]
    by (simp add: key_defs example_env_def)
  have us: "UPDATE_SCHEMA example_env ?U = Inr ?U"
    by (auto simp: UPDATE_SCHEMA_def vol_Schema_def UPDATE_FIELDS_def key_defs cv_datetime_def)
  have u: "update_data example_env ?R ?U = Inr ?R'"
    using update_data_result[OF us, of ?R]
    by (simp add: key_defs example_env_def)
  have c: "async_create_item example_env Map.empty ?D = ([VStr ''tagA'' \<mapsto> ?R], Inr ?R)"
  proof -
    have g: "get_suggested_id ?R = Inr (VStr ''tagA'')"
      by (simp add: get_suggested_id_def key_defs)
    have i: "generate_id Map.empty (VStr ''tagA'' :: nat pyval) = Inr (VStr ''tagA'')"
      by (simp add: generate_id_def has_id_def)
    have m: "?R(TAG_ID \<mapsto> VStr ''tagA'') = ?R"
      by (rule ext) (simp add: key_defs)
    show ?thesis
      unfolding async_create_item_def p sum.case g i Let_def m by (rule refl)
  qed
  have a: "async_update_item example_env [VStr ''tagA'' \<mapsto> ?R] (VStr ''tagA'') ?U
             = ([VStr ''tagA'' \<mapsto> ?R'], Inr ?R')"
    unfolding async_update_item_def by (simp add: u[simplified])
  have e: "stored_last_scanned_str (Map.empty :: nat items)"
    by (simp add: stored_last_scanned_str_def)
  have 1: "last_scanned_str ?R"
    using T[where E = example_env and data = ?D and ?r1.0 = ?R, THEN conjunct1, THEN mp, OF p]
    by (rule conjunct1)
  have 2: "last_scanned_str ?R'"
    by (rule T[where E = example_env and item = ?R and upd = ?U and ?r2.0 = ?R',
            THEN conjunct2, THEN conjunct1, THEN mp, OF u, THEN conjunct1, THEN mp, OF 1])
  have 3: "stored_last_scanned_str [VStr ''tagA'' \<mapsto> ?R]"
    using T[where E = example_env and items = Map.empty and data = ?D and ?r3.0 = ?R
              and ?items1.0 = "[VStr ''tagA'' \<mapsto> ?R]",
            THEN conjunct2, THEN conjunct2, THEN conjunct1, THEN mp, OF conjI, OF c e]
    by (rule conjunct1)
  have 4: "stored_last_scanned_str [VStr ''tagA'' \<mapsto> ?R']"
    using T[where E = example_env and items = "[VStr ''tagA'' \<mapsto> ?R]" and upd = ?U and ?r4.0 = ?R'
              and ?items2.0 = "[VStr ''tagA'' \<mapsto> ?R']" and i = "VStr ''tagA''",
            THEN conjunct2, THEN conjunct2, THEN conjunct2, THEN mp, OF conjI, OF a 3]
    by (rule conjunct1)
  show ?thesis by (intro conjI p 1 u 2 c 3 a 4)
qed

section \<open>Id conflicts: the claim\<close>

text \<open>
  C3, as stated, fails on the code. With \<open>tagA\<close> stored, a create whose payload carries
  the id \<open>tagA\<close> and an empty name fails with \<^verbatim>\<open>vol.Invalid\<close>, not with
  \<^verbatim>\<open>TagIDExistsError\<close>: the payload is validated before the id is looked at. And with a
  record stored under the empty id, a create whose payload carries the empty id succeeds
  under a generated id, since \<^verbatim>\<open>_process_create_data\<close> replaces a falsy id.
\<close>

theorem create_conflict_counterexample:
  "has_id [VStr ''tagA'' \<mapsto> [TAG_ID \<mapsto> VStr ''tagA'' :: nat pyval]] (VStr ''tagA'')
   \<and> [TAG_ID \<mapsto> VStr ''tagA'', CONF_NAME \<mapsto> VStr [] :: nat pyval] TAG_ID = Some (VStr ''tagA'')
   \<and> async_create_item example_env
        [VStr ''tagA'' \<mapsto> [TAG_ID \<mapsto> VStr ''tagA'']]
        [TAG_ID \<mapsto> VStr ''tagA'', CONF_NAME \<mapsto> VStr []]
       = ([VStr ''tagA'' \<mapsto> [TAG_ID \<mapsto> VStr ''tagA'']], Inl Invalid)
   \<and> (Inl Invalid :: nat error + nat pydict) \<noteq> Inl (TagIDExistsError (VStr ''tagA''))
   \<and> has_id [VStr [] \<mapsto> [TAG_ID \<mapsto> VStr [] :: nat pyval]] (VStr [])
   \<and> async_create_item example_env
        [VStr [] \<mapsto> [TAG_ID \<mapsto> VStr []]]
        [TAG_ID \<mapsto> VStr []]
       = ([VStr [] \<mapsto> [TAG_ID \<mapsto> VStr []],
           VStr (uuid4 example_env) \<mapsto> [TAG_ID \<mapsto> VStr (uuid4 example_env)]],
          Inr [TAG_ID \<mapsto> VStr (uuid4 example_env)])"
proof -
  have 1: "process_create_data example_env [TAG_ID \<mapsto> VStr ''tagA'', CONF_NAME \<mapsto> VStr []]
             = Inl Invalid"
    by (simp add: process_create_data_def CREATE_SCHEMA_def vol_Schema_def CREATE_FIELDS_def
        key_defs vol_All_str_Length_def cv_string_def)
  have s: "CREATE_SCHEMA example_env [TAG_ID \<mapsto> VStr []] = Inr [TAG_ID \<mapsto> VStr []]"
    by (auto simp: CREATE_SCHEMA_def vol_Schema_def CREATE_FIELDS_def key_defs cv_string_def)
  have 2: "process_create_data example_env [TAG_ID \<mapsto> VStr []]
             = Inr [TAG_ID \<mapsto> VStr (uuid4 example_env)]"
    using process_create_data_result[OF s, of "VStr []"] by simp
  have g: "get_suggested_id [TAG_ID \<mapsto> VStr (uuid4 example_env) :: nat pyval]
             = Inr (VStr (uuid4 example_env))"
    by (simp add: get_suggested_id_def)
  have i: "generate_id [VStr [] \<mapsto> [TAG_ID \<mapsto> VStr [] :: nat pyval]] (VStr (uuid4 example_env))
             = Inr (VStr (uuid4 example_env))"
    by (simp add: generate_id_def has_id_def example_env_def)
  have 3: "async_create_item example_env
        [VStr [] \<mapsto> [TAG_ID \<mapsto> VStr []]]
        [TAG_ID \<mapsto> VStr []]
       = ([VStr [] \<mapsto> [TAG_ID \<mapsto> VStr []],
           VStr (uuid4 example_env) \<mapsto> [TAG_ID \<mapsto> VStr (uuid4 example_env)]],
          Inr [TAG_ID \<mapsto> VStr (uuid4 example_env)])"
    unfolding async_create_item_def 2 sum.case g i Let_def by simp
  have 4: "async_create_item example_env
        [VStr ''tagA'' \<mapsto> [TAG_ID \<mapsto> VStr ''tagA'']]
        [TAG_ID \<mapsto> VStr ''tagA'', CONF_NAME \<mapsto> VStr []]
       = ([VStr ''tagA'' \<mapsto> [TAG_ID \<mapsto> VStr ''tagA'']], Inl Invalid)"
    unfolding async_create_item_def 1 sum.case by (rule refl)
  have 5: "has_id [VStr ''tagA'' \<mapsto> [TAG_ID \<mapsto> VStr ''tagA'' :: nat pyval]] (VStr ''tagA'')"
    "has_id [VStr [] \<mapsto> [TAG_ID \<mapsto> VStr [] :: nat pyval]] (VStr [])"
    by (simp_all add: has_id_def)
  have 6: "[TAG_ID \<mapsto> VStr ''tagA'', CONF_NAME \<mapsto> VStr [] :: nat pyval] TAG_ID = Some (VStr ''tagA'')"
    by (simp add: key_defs)
  have 7: "(Inl Invalid :: nat error + nat pydict) \<noteq> Inl (TagIDExistsError (VStr ''tagA''))"
    by simp
  show ?thesis by (intro conjI 3 4 5 6 7)
qed

text \<open>
  C3, amended. A create whose payload satisfies the create schema and carries a non-empty
  string id that is already a key of the collection fails with \<^verbatim>\<open>TagIDExistsError\<close>
  naming that id, and the map after the call is the map before it. The id allocator
  fails with \<^verbatim>\<open>TagIDExistsError\<close> on a suggestion that is present and returns a
  suggestion that is not present unchanged.
\<close>

theorem create_existing_id_conflicts:
  "(CREATE_SCHEMA E data = Inr v \<and> data TAG_ID = Some (VStr s) \<and> s \<noteq> [] \<and> has_id items (VStr s)
      \<longrightarrow> async_create_item E items data = (items, Inl (TagIDExistsError (VStr s))))
   \<and> (has_id items suggestion \<longrightarrow> generate_id items suggestion = Inl (TagIDExistsError suggestion))
   \<and> (\<not> has_id items suggestion \<longrightarrow> generate_id items suggestion = Inr suggestion)"
proof (intro conjI impI)
  assume a: "CREATE_SCHEMA E data = Inr v \<and> data TAG_ID = Some (VStr s) \<and> s \<noteq> [] \<and> has_id items (VStr s)"
  then have v: "CREATE_SCHEMA E data = Inr v" and d: "data TAG_ID = Some (VStr s)"
    and s: "s \<noteq> []" and h: "has_id items (VStr s)"
    by simp_all
  from CREATE_SCHEMA_id[OF v d] have vid: "v TAG_ID = Some (VStr s)"
    by (simp add: cv_string_str)
  let ?r = "case v LAST_SCANNED of
              Some (VDatetime d) \<Rightarrow> v(LAST_SCANNED \<mapsto> VStr (isoformat E d))
            | _ \<Rightarrow> v"
  have p: "process_create_data E data = Inr ?r"
    using process_create_data_result[OF v vid] s by simp
  have "?r TAG_ID = Some (VStr s)"
    using vid by (auto simp: key_defs split: option.splits pyval.splits)
  then have g: "get_suggested_id ?r = Inr (VStr s)"
    by (simp add: get_suggested_id_def)
  have i: "generate_id items (VStr s) = Inl (TagIDExistsError (VStr s))"
    using h by (simp add: generate_id_def)
  show "async_create_item E items data = (items, Inl (TagIDExistsError (VStr s)))"
    unfolding async_create_item_def p sum.case g i by (rule refl)
qed (simp_all add: generate_id_def)

theorem create_existing_id_conflicts_witness:
  "CREATE_SCHEMA example_env [TAG_ID \<mapsto> VStr ''tagA'', DEVICE_ID \<mapsto> VStr ''deviceX'']
     = Inr [TAG_ID \<mapsto> VStr ''tagA'', DEVICE_ID \<mapsto> VStr ''deviceX'']
   \<and> has_id [VStr ''tagA'' \<mapsto> [TAG_ID \<mapsto> VStr ''tagA'' :: nat pyval]] (VStr ''tagA'')
   \<and> async_create_item example_env
        [VStr ''tagA'' \<mapsto> [TAG_ID \<mapsto> VStr ''tagA'']]
        [TAG_ID \<mapsto> VStr ''tagA'', DEVICE_ID \<mapsto> VStr ''deviceX'']
       = ([VStr ''tagA'' \<mapsto> [TAG_ID \<mapsto> VStr ''tagA'']],
          Inl (TagIDExistsError (VStr ''tagA'')))
   \<and> generate_id [VStr ''tagA'' \<mapsto> [TAG_ID \<mapsto> VStr ''tagA'' :: nat pyval]] (VStr ''tagA'')
       = Inl (TagIDExistsError (VStr ''tagA''))
   \<and> \<not> has_id [VStr ''tagA'' \<mapsto> [TAG_ID \<mapsto> VStr ''tagA'' :: nat pyval]] (VStr ''tagB'')
   \<and> generate_id [VStr ''tagA'' \<mapsto> [TAG_ID \<mapsto> VStr ''tagA'' :: nat pyval]] (VStr ''tagB'')
       = Inr (VStr ''tagB'')"
proof -
  let ?items = "[VStr ''tagA'' \<mapsto> [TAG_ID \<mapsto> VStr ''tagA'' :: nat pyval]]"
  let ?data = "[TAG_ID \<mapsto> VStr ''tagA'', DEVICE_ID \<mapsto> VStr ''deviceX'' :: nat pyval]"
  note T = create_existing_id_conflicts
  have s: "CREATE_SCHEMA example_env ?data = Inr ?data"
    by (auto simp: CREATE_SCHEMA_def vol_Schema_def CREATE_FIELDS_def key_defs cv_string_def)
  have d: "?data TAG_ID = Some (VStr ''tagA'')"
    by (simp add: key_defs)
  have n: "''tagA'' \<noteq> []" by simp
  have h: "has_id ?items (VStr ''tagA'')"
    by (simp add: has_id_def)
  have f: "\<not> has_id ?items (VStr ''tagB'')"
    by (simp add: has_id_def)
  have 1: "async_create_item example_env ?items ?data
             = (?items, Inl (TagIDExistsError (VStr ''tagA'')))"
    by (rule T[THEN conjunct1, THEN mp, OF conjI, OF s conjI, OF d conjI, OF n h])
  have 2: "generate_id ?items (VStr ''tagA'') = Inl (TagIDExistsError (VStr ''tagA''))"
    by (rule T[where E = example_env, THEN conjunct2, THEN conjunct1, THEN mp, OF h])
  have 3: "generate_id ?items (VStr ''tagB'') = Inr (VStr ''tagB'')"
    by (rule T[where E = example_env, THEN conjunct2, THEN conjunct2, THEN mp, OF f])
  show ?thesis by (intro conjI s h 1 2 f 3)
qed

section \<open>Entities: the claims\<close>

text \<open>
  C4. An \<open>updated\<close> notification for a record whose entity exists, with \<open>new\<close> the
  record's \<open>last_scanned\<close> or the empty string when absent: the notification overwrites
  the entity's cached device id and timestamp and writes its state once if and only if
  \<open>new\<close> differs from the entity's cached \<open>last_scanned\<close>; when they are equal nothing
  is written and the entity, its cached device id included, stays as it was.
\<close>

theorem updated_republishes_iff_last_scanned_differs:
  assumes "updated_config TAG_ID = Some tid" and "entities p tid = Some e"
  shows "\<exists>p'. tag_change_listener E p CHANGE_UPDATED item_id updated_config = Inr p'
           \<and> (dict_get updated_config LAST_SCANNED (VStr []) \<noteq> last_scanned e \<longrightarrow>
                 entities p' =
                   (entities p)(tid \<mapsto>
                      e\<lparr> last_device_id := dict_get updated_config DEVICE_ID VNone,
                         last_scanned := dict_get updated_config LAST_SCANNED (VStr []) \<rparr>)
                 \<and> written p' = written p @
                      [Write_state (entity_id e)
                         (state E (e\<lparr> last_scanned :=
                                        dict_get updated_config LAST_SCANNED (VStr []) \<rparr>))
                         [TAG_ID \<mapsto> tag_id e,
                          DEVICE_ID \<mapsto> dict_get updated_config DEVICE_ID VNone]])
           \<and> (dict_get updated_config LAST_SCANNED (VStr []) = last_scanned e \<longrightarrow> p' = p)
           \<and> (written p' \<noteq> written p
                 \<longleftrightarrow> dict_get updated_config LAST_SCANNED (VStr []) \<noteq> last_scanned e)"
  using assms
  by (auto simp: tag_change_listener_def async_handle_event_def async_write_ha_state_def
      extra_state_attributes_def state_def Let_def)

theorem updated_republishes_iff_last_scanned_differs_witness:
  "[TAG_ID \<mapsto> VStr ''tagA'', LAST_SCANNED \<mapsto> VStr ''1970-01-01T00:00:01+00:00'',
    DEVICE_ID \<mapsto> VStr ''deviceY'' :: nat pyval] TAG_ID = Some (VStr ''tagA'')
   \<and> (\<exists>p'. tag_change_listener example_env
          \<lparr> entities = [VStr ''tagA'' \<mapsto>
                TagEntity_init example_env (VStr ''Tag'') (VStr ''tagA'')
                  (VStr ''1970-01-01T00:00:00+00:00'') (VStr ''deviceX'')],
            written = [] \<rparr>
          CHANGE_UPDATED (VStr ''tagA'')
          [TAG_ID \<mapsto> VStr ''tagA'', LAST_SCANNED \<mapsto> VStr ''1970-01-01T00:00:01+00:00'',
           DEVICE_ID \<mapsto> VStr ''deviceY''] = Inr p'
        \<and> written p' =
            [Write_state ''tag.tag'' (Some ''1970-01-01T00:00:01.000+00:00'')
               [TAG_ID \<mapsto> VStr ''tagA'', DEVICE_ID \<mapsto> VStr ''deviceY'']])
   \<and> (\<exists>p'. tag_change_listener example_env
          \<lparr> entities = [VStr ''tagA'' \<mapsto>
                TagEntity_init example_env (VStr ''Tag'') (VStr ''tagA'')
                  (VStr ''1970-01-01T00:00:00+00:00'') (VStr ''deviceX'')],
            written = [] \<rparr>
          CHANGE_UPDATED (VStr ''tagA'')
          [TAG_ID \<mapsto> VStr ''tagA'', LAST_SCANNED \<mapsto> VStr ''1970-01-01T00:00:00+00:00'',
           DEVICE_ID \<mapsto> VStr ''deviceY''] = Inr p'
        \<and> written p' = []
        \<and> entities p' (VStr ''tagA'') =
            Some (TagEntity_init example_env (VStr ''Tag'') (VStr ''tagA'')
                   (VStr ''1970-01-01T00:00:00+00:00'') (VStr ''deviceX'')))"
proof -
  let ?e = "TagEntity_init example_env (VStr ''Tag'') (VStr ''tagA'')
                  (VStr ''1970-01-01T00:00:00+00:00'') (VStr ''deviceX'')"
  let ?p = "\<lparr> entities = [VStr ''tagA'' \<mapsto> ?e], written = [] \<rparr>"
  let ?c1 = "[TAG_ID \<mapsto> VStr ''tagA'', LAST_SCANNED \<mapsto> VStr ''1970-01-01T00:00:01+00:00'',
           DEVICE_ID \<mapsto> VStr ''deviceY'' :: nat pyval]"
  let ?c0 = "[TAG_ID \<mapsto> VStr ''tagA'', LAST_SCANNED \<mapsto> VStr ''1970-01-01T00:00:00+00:00'',
           DEVICE_ID \<mapsto> VStr ''deviceY'' :: nat pyval]"
  have t1: "?c1 TAG_ID = Some (VStr ''tagA'')" and t0: "?c0 TAG_ID = Some (VStr ''tagA'')"
    by (simp_all add: key_defs)
  have en: "entities ?p (VStr ''tagA'') = Some ?e" by simp
  from updated_republishes_iff_last_scanned_differs[where updated_config = ?c1
         and tid = "VStr ''tagA''" and p = ?p and e = ?e and E = example_env
         and item_id = "VStr ''tagA''", OF t1 en]
  have 1: "\<exists>p'. tag_change_listener example_env ?p CHANGE_UPDATED (VStr ''tagA'') ?c1 = Inr p'
        \<and> written p' =
            [Write_state ''tag.tag'' (Some ''1970-01-01T00:00:01.000+00:00'')
               [TAG_ID \<mapsto> VStr ''tagA'', DEVICE_ID \<mapsto> VStr ''deviceY'']]"
    by (auto simp: dict_get_def key_defs TagEntity_init_def state_def parse_datetime_def
        example_env_def)
  from updated_republishes_iff_last_scanned_differs[where updated_config = ?c0
         and tid = "VStr ''tagA''" and p = ?p and e = ?e and E = example_env
         and item_id = "VStr ''tagA''", OF t0 en]
  have 0: "\<exists>p'. tag_change_listener example_env ?p CHANGE_UPDATED (VStr ''tagA'') ?c0 = Inr p'
        \<and> written p' = [] \<and> entities p' (VStr ''tagA'') = Some ?e"
    by (auto simp: dict_get_def key_defs TagEntity_init_def)
  show ?thesis by (intro conjI t1 1 0)
qed

text \<open>
  C5. The state of an entity is its cached \<open>last_scanned\<close> parsed as a datetime and
  formatted with \<^verbatim>\<open>isoformat(timespec="milliseconds")\<close>; it is \<open>None\<close> when the cached
  \<open>last_scanned\<close> is the empty string or does not parse as a datetime.
\<close>

theorem state_is_reformatted_last_scanned:
  "(parse_datetime E (last_scanned e) = Some d \<longrightarrow> state E e = Some (isoformat_ms E d))
   \<and> (parse_datetime E (last_scanned e) = None \<longrightarrow> state E e = None)
   \<and> (last_scanned e = VStr [] \<longrightarrow> state E e = None)"
  by (simp add: state_def parse_datetime_def)

theorem state_is_reformatted_last_scanned_witness:
  "parse_datetime example_env (last_scanned (TagEntity_init example_env (VStr ''Tag'') (VStr ''tagA'')
      (VStr ''1970-01-01T00:00:01+00:00'') VNone)) = Some 1
   \<and> state example_env (TagEntity_init example_env (VStr ''Tag'') (VStr ''tagA'')
      (VStr ''1970-01-01T00:00:01+00:00'') VNone) = Some ''1970-01-01T00:00:01.000+00:00''
   \<and> parse_datetime example_env (last_scanned (TagEntity_init example_env (VStr ''Tag'') (VStr ''tagA'')
      (VStr ''yesterday'') VNone)) = None
   \<and> state example_env (TagEntity_init example_env (VStr ''Tag'') (VStr ''tagA'')
      (VStr ''yesterday'') VNone) = None
   \<and> last_scanned (TagEntity_init example_env (VStr ''Tag'') (VStr ''tagA'') (VStr []) VNone) = VStr []
   \<and> state example_env (TagEntity_init example_env (VStr ''Tag'') (VStr ''tagA'') (VStr []) VNone) = None"
proof -
  note T = state_is_reformatted_last_scanned
  let ?e1 = "TagEntity_init example_env (VStr ''Tag'') (VStr ''tagA'')
      (VStr ''1970-01-01T00:00:01+00:00'') VNone"
  let ?e2 = "TagEntity_init example_env (VStr ''Tag'') (VStr ''tagA'') (VStr ''yesterday'') VNone"
  let ?e3 = "TagEntity_init example_env (VStr ''Tag'') (VStr ''tagA'') (VStr []) VNone"
  have p1: "parse_datetime example_env (last_scanned ?e1) = Some 1"
    by (simp add: TagEntity_init_def parse_datetime_def example_env_def)
  have p2: "parse_datetime example_env (last_scanned ?e2) = None"
    by (simp add: TagEntity_init_def parse_datetime_def example_env_def)
  have p3: "last_scanned ?e3 = VStr []"
    by (simp add: TagEntity_init_def)
  have 1: "state example_env ?e1 = Some ''1970-01-01T00:00:01.000+00:00''"
    using T[THEN conjunct1, THEN mp, OF p1] by (simp add: example_env_def)
  have 2: "state example_env ?e2 = None"
    by (rule T[THEN conjunct2, THEN conjunct1, THEN mp, OF p2])
  have 3: "state example_env ?e3 = None"
    by (rule T[THEN conjunct2, THEN conjunct2, THEN mp, OF p3])
  show ?thesis by (intro conjI p1 1 p2 2 p3 3)
qed

lemma process_create_data_no_name:
  assumes "process_create_data E data = Inr r" and "data CONF_NAME = None"
  shows "r CONF_NAME = None"
proof -
  from process_create_data_Inr[OF assms(1)] obtain v tid
    where v: "CREATE_SCHEMA E data = Inr v" and tid: "v TAG_ID = Some tid"
    by blast
  from v assms(2) have "v CONF_NAME = None"
    by (simp add: CREATE_SCHEMA_def vol_Schema_absent)
  with process_create_data_result[OF v tid] assms(1) show ?thesis
    by (auto simp: key_defs split: option.splits pyval.splits if_splits)
qed

text \<open>
  C10. The entity id of a record's entity is \<open>tag.\<close> followed by the slug of the name
  the entity was made with, and of nothing else. The listener makes the entity with the
  record's name, or with the default name when the record has none, as is the case for a
  record created by a scan, whose payload carries no name. So two added records with equal
  names, or both without a name, get the same entity id whatever their tag ids are, and
  both states are written under that one id.
\<close>

theorem entity_id_from_name_only:
  "entity_id (TagEntity_init E name tid lscanned device_id) = ''tag.'' @ slugify E name
   \<and> (c1 TAG_ID = Some t1 \<and> c2 TAG_ID = Some t2 \<and> c1 CONF_NAME = c2 CONF_NAME \<longrightarrow>
        (\<exists>p1 p2 e1 e2 s1 a1 s2 a2.
            tag_change_listener E p CHANGE_ADDED i1 c1 = Inr p1
          \<and> tag_change_listener E p1 CHANGE_ADDED i2 c2 = Inr p2
          \<and> entities p1 t1 = Some e1 \<and> entities p2 t2 = Some e2
          \<and> tag_id e1 = t1 \<and> tag_id e2 = t2
          \<and> entity_id e1 = ''tag.'' @ slugify E (dict_get c1 CONF_NAME (VStr (DEFAULT_NAME E)))
          \<and> entity_id e2 = entity_id e1
          \<and> written p2 = written p @ [Write_state (entity_id e1) s1 a1,
                                        Write_state (entity_id e1) s2 a2]))
   \<and> (c1 CONF_NAME = None \<longrightarrow>
        dict_get c1 CONF_NAME (VStr (DEFAULT_NAME E)) = VStr (DEFAULT_NAME E))
   \<and> (async_scan_tag E h scanned dev = Inr [fired, Async_create_item payload]
        \<and> process_create_data E payload = Inr r \<longrightarrow> r CONF_NAME = None)"
proof (intro conjI impI)
  show "entity_id (TagEntity_init E name tid lscanned device_id) = ''tag.'' @ slugify E name"
    by (simp add: TagEntity_init_def)
next
  assume a: "c1 TAG_ID = Some t1 \<and> c2 TAG_ID = Some t2 \<and> c1 CONF_NAME = c2 CONF_NAME"
  let ?e1 = "TagEntity_init E (dict_get c1 CONF_NAME (VStr (DEFAULT_NAME E))) t1
               (dict_get c1 LAST_SCANNED (VStr [])) (dict_get c1 DEVICE_ID VNone)"
  let ?e2 = "TagEntity_init E (dict_get c2 CONF_NAME (VStr (DEFAULT_NAME E))) t2
               (dict_get c2 LAST_SCANNED (VStr [])) (dict_get c2 DEVICE_ID VNone)"
  let ?p1 = "p\<lparr> entities := (entities p)(t1 \<mapsto> ?e1),
                 written := written p @ [async_write_ha_state E ?e1] \<rparr>"
  let ?p2 = "?p1\<lparr> entities := (entities ?p1)(t2 \<mapsto> ?e2),
                 written := written ?p1 @ [async_write_ha_state E ?e2] \<rparr>"
  have 1: "tag_change_listener E p CHANGE_ADDED i1 c1 = Inr ?p1"
    using a by (simp add: tag_change_listener_def async_add_initial_state_def Let_def)
  have 2: "tag_change_listener E ?p1 CHANGE_ADDED i2 c2 = Inr ?p2"
    using a by (simp add: tag_change_listener_def async_add_initial_state_def Let_def)
  have n: "dict_get c2 CONF_NAME (VStr (DEFAULT_NAME E)) = dict_get c1 CONF_NAME (VStr (DEFAULT_NAME E))"
    using a by (simp add: dict_get_def)
  have 3: "entity_id ?e2 = entity_id ?e1"
    by (simp add: TagEntity_init_def n)
  have 4: "written ?p2 = written p @
             [Write_state (entity_id ?e1) (state E ?e1) (extra_state_attributes ?e1),
              Write_state (entity_id ?e1) (state E ?e2) (extra_state_attributes ?e2)]"
    using 3 by (simp add: async_write_ha_state_def)
  have 5: "entities ?p1 t1 = Some ?e1" "entities ?p2 t2 = Some ?e2"
    "tag_id ?e1 = t1" "tag_id ?e2 = t2"
    "entity_id ?e1 = ''tag.'' @ slugify E (dict_get c1 CONF_NAME (VStr (DEFAULT_NAME E)))"
    by (simp_all add: TagEntity_init_def)
  from 1 2 3 4 5
  show "\<exists>p1 p2 e1 e2 s1 a1 s2 a2.
            tag_change_listener E p CHANGE_ADDED i1 c1 = Inr p1
          \<and> tag_change_listener E p1 CHANGE_ADDED i2 c2 = Inr p2
          \<and> entities p1 t1 = Some e1 \<and> entities p2 t2 = Some e2
          \<and> tag_id e1 = t1 \<and> tag_id e2 = t2
          \<and> entity_id e1 = ''tag.'' @ slugify E (dict_get c1 CONF_NAME (VStr (DEFAULT_NAME E)))
          \<and> entity_id e2 = entity_id e1
          \<and> written p2 = written p @ [Write_state (entity_id e1) s1 a1,
                                        Write_state (entity_id e1) s2 a2]"
    by (intro exI[of _ ?p1] exI[of _ ?p2] exI[of _ ?e1] exI[of _ ?e2]
        exI[of _ "state E ?e1"] exI[of _ "extra_state_attributes ?e1"]
        exI[of _ "state E ?e2"] exI[of _ "extra_state_attributes ?e2"] conjI)
next
  assume "c1 CONF_NAME = None"
  then show "dict_get c1 CONF_NAME (VStr (DEFAULT_NAME E)) = VStr (DEFAULT_NAME E)"
    by (simp add: dict_get_def)
next
  assume a: "async_scan_tag E h scanned dev = Inr [fired, Async_create_item payload]
        \<and> process_create_data E payload = Inr r"
  then have "payload CONF_NAME = None"
    by (auto simp: async_scan_tag_def Let_def key_defs split: if_splits)
  with a show "r CONF_NAME = None"
    using process_create_data_no_name[of E payload r] by blast
qed

theorem entity_id_from_name_only_witness:
  "[TAG_ID \<mapsto> VStr ''tagA'', DEVICE_ID \<mapsto> VStr ''deviceX'' :: nat pyval] TAG_ID = Some (VStr ''tagA'')
   \<and> [TAG_ID \<mapsto> VStr ''tagB'', DEVICE_ID \<mapsto> VStr ''deviceY'' :: nat pyval] TAG_ID = Some (VStr ''tagB'')
   \<and> [TAG_ID \<mapsto> VStr ''tagA'', DEVICE_ID \<mapsto> VStr ''deviceX'' :: nat pyval] CONF_NAME = None
   \<and> [TAG_ID \<mapsto> VStr ''tagB'', DEVICE_ID \<mapsto> VStr ''deviceY'' :: nat pyval] CONF_NAME = None
   \<and> (\<exists>p1 p2 e1 e2 s1 a1 s2 a2.
          tag_change_listener example_env \<lparr> entities = Map.empty, written = [] \<rparr> CHANGE_ADDED
            (VStr ''tagA'') [TAG_ID \<mapsto> VStr ''tagA'', DEVICE_ID \<mapsto> VStr ''deviceX''] = Inr p1
        \<and> tag_change_listener example_env p1 CHANGE_ADDED
            (VStr ''tagB'') [TAG_ID \<mapsto> VStr ''tagB'', DEVICE_ID \<mapsto> VStr ''deviceY''] = Inr p2
        \<and> entities p1 (VStr ''tagA'') = Some e1 \<and> entities p2 (VStr ''tagB'') = Some e2
        \<and> tag_id e1 = VStr ''tagA'' \<and> tag_id e2 = VStr ''tagB''
        \<and> entity_id e1 = ''tag.tag'' \<and> entity_id e2 = ''tag.tag''
        \<and> written p2 = [Write_state ''tag.tag'' s1 a1, Write_state ''tag.tag'' s2 a2])
   \<and> async_scan_tag example_env \<lparr> components = {''tag''}, helper_data = Map.empty \<rparr> ''tagC'' None
       = Inr [Async_fire EVENT_TAG_SCANNED
                [TAG_ID \<mapsto> VStr ''tagC'', CONF_NAME \<mapsto> VNone, DEVICE_ID \<mapsto> VNone],
              Async_create_item
                [TAG_ID \<mapsto> VStr ''tagC'', LAST_SCANNED \<mapsto> VDatetime 1, DEVICE_ID \<mapsto> VStr []]]
   \<and> (\<exists>r. process_create_data example_env
              [TAG_ID \<mapsto> VStr ''tagC'', LAST_SCANNED \<mapsto> VDatetime 1, DEVICE_ID \<mapsto> VStr []] = Inr r
          \<and> r CONF_NAME = None)"
proof -
  note T = entity_id_from_name_only
  let ?c1 = "[TAG_ID \<mapsto> VStr ''tagA'', DEVICE_ID \<mapsto> VStr ''deviceX'' :: nat pyval]"
  let ?c2 = "[TAG_ID \<mapsto> VStr ''tagB'', DEVICE_ID \<mapsto> VStr ''deviceY'' :: nat pyval]"
  let ?p = "\<lparr> entities = Map.empty, written = [] \<rparr> :: nat projector"
  let ?h = "\<lparr> components = {''tag''}, helper_data = Map.empty \<rparr> :: nat hass"
  let ?payload = "[TAG_ID \<mapsto> VStr ''tagC'', LAST_SCANNED \<mapsto> VDatetime (1::nat), DEVICE_ID \<mapsto> VStr []]"
  let ?fired = "Async_fire EVENT_TAG_SCANNED
                [TAG_ID \<mapsto> VStr ''tagC'', CONF_NAME \<mapsto> VNone, DEVICE_ID \<mapsto> VNone :: nat pyval]"
  have t1: "?c1 TAG_ID = Some (VStr ''tagA'')" and t2: "?c2 TAG_ID = Some (VStr ''tagB'')"
    and n1: "?c1 CONF_NAME = None" and n2: "?c2 CONF_NAME = None"
    by (simp_all add: key_defs)
  from n1 n2 have n: "?c1 CONF_NAME = ?c2 CONF_NAME" by simp
  have d: "dict_get ?c1 CONF_NAME (VStr (DEFAULT_NAME example_env)) = VStr (DEFAULT_NAME example_env)"
    by (rule T[where E = example_env and ?c1.0 = ?c1,
               THEN conjunct2, THEN conjunct2, THEN conjunct1, THEN mp, OF n1])
  have slug: "''tag.'' @ slugify example_env (VStr (DEFAULT_NAME example_env)) = ''tag.tag''"
    by (simp add: example_env_def)
  from T[where E = example_env and p = ?p and ?i1.0 = "VStr ''tagA''" and ?i2.0 = "VStr ''tagB''"
           and ?c1.0 = ?c1 and ?c2.0 = ?c2 and ?t1.0 = "VStr ''tagA''" and ?t2.0 = "VStr ''tagB''",
         THEN conjunct2, THEN conjunct1, THEN mp, OF conjI, OF t1 conjI, OF t2 n]
  obtain p1 p2 e1 e2 s1 a1 s2 a2 where
      l1: "tag_change_listener example_env ?p CHANGE_ADDED (VStr ''tagA'') ?c1 = Inr p1"
    and l2: "tag_change_listener example_env p1 CHANGE_ADDED (VStr ''tagB'') ?c2 = Inr p2"
    and m1: "entities p1 (VStr ''tagA'') = Some e1" and m2: "entities p2 (VStr ''tagB'') = Some e2"
    and i1: "tag_id e1 = VStr ''tagA''" and i2: "tag_id e2 = VStr ''tagB''"
    and e1: "entity_id e1 =
               ''tag.'' @ slugify example_env (dict_get ?c1 CONF_NAME (VStr (DEFAULT_NAME example_env)))"
    and e2: "entity_id e2 = entity_id e1"
    and w: "written p2 = written ?p @ [Write_state (entity_id e1) s1 a1,
                                       Write_state (entity_id e1) s2 a2]"
    by (elim exE conjE)
  from e1 have e1': "entity_id e1 = ''tag.tag''"
    unfolding d slug .
  from e2 e1' have e2': "entity_id e2 = ''tag.tag''" by simp
  from w e1' have w': "written p2 = [Write_state ''tag.tag'' s1 a1, Write_state ''tag.tag'' s2 a2]"
    by simp
  from l1 l2 m1 m2 i1 i2 e1' e2' w'
  have L: "\<exists>p1 p2 e1 e2 s1 a1 s2 a2.
          tag_change_listener example_env ?p CHANGE_ADDED (VStr ''tagA'') ?c1 = Inr p1
        \<and> tag_change_listener example_env p1 CHANGE_ADDED (VStr ''tagB'') ?c2 = Inr p2
        \<and> entities p1 (VStr ''tagA'') = Some e1 \<and> entities p2 (VStr ''tagB'') = Some e2
        \<and> tag_id e1 = VStr ''tagA'' \<and> tag_id e2 = VStr ''tagB''
        \<and> entity_id e1 = ''tag.tag'' \<and> entity_id e2 = ''tag.tag''
        \<and> written p2 = [Write_state ''tag.tag'' s1 a1, Write_state ''tag.tag'' s2 a2]"
    by (intro exI[of _ p1] exI[of _ p2] exI[of _ e1] exI[of _ e2]
        exI[of _ s1] exI[of _ a1] exI[of _ s2] exI[of _ a2] conjI)
  have sc: "async_scan_tag example_env ?h ''tagC'' None = Inr [?fired, Async_create_item ?payload]"
    by (simp add: async_scan_tag_def DOMAIN_def Let_def opt_str_def py_or_def example_env_def)
  have cs: "CREATE_SCHEMA example_env ?payload = Inr ?payload"
    by (auto simp: CREATE_SCHEMA_def vol_Schema_def CREATE_FIELDS_def key_defs cv_string_def
        cv_datetime_def)
  from process_create_data_result[OF cs, of "VStr ''tagC''"]
  obtain r where r: "process_create_data example_env ?payload = Inr r"
    by (simp add: key_defs)
  have "r CONF_NAME = None"
    by (rule T[where E = example_env and h = ?h and scanned = "''tagC''" and dev = None
                 and fired = ?fired and payload = ?payload and r = r,
               THEN conjunct2, THEN conjunct2, THEN conjunct2, THEN mp, OF conjI, OF sc r])
  with r have R: "\<exists>r. process_create_data example_env ?payload = Inr r \<and> r CONF_NAME = None"
    by (intro exI[of _ r] conjI)
  show ?thesis by (intro conjI t1 t2 n1 n2 L sc R)
qed

end
